theory Spec2Isabelle
  imports Complex_Main "HOL-Library.AList"
begin

section \<open>Python values used by the model\<close>

text \<open>
  A Python \<open>str\<close> is modelled by the \<open>string\<close> of its UTF-8 bytes, so an ASCII text
  by itself. A \<open>dict\<close> whose iteration order is observed (\<open>function_index\<close>,
  \<open>principle_index\<close>) is an association list updated with \<open>AList.update\<close>: a new
  key is appended, an existing key keeps its position and takes the new value, as
  assignment to a Python dict does. A \<open>defaultdict(list)\<close> that is only read by key is
  a map to lists. An exception is a value of an error type, returned on the left of a
  sum.
\<close>

datatype py_error = KeyError | UnicodeDecodeError

text \<open>
  \<open>str.lower\<close> follows the Unicode database and is a parameter of the search; on ASCII
  text it is \<open>ascii_lower\<close>: an upper-case letter (codes 65 to 90) gets bit 5 set,
  which adds 32, and every other character stays.
\<close>

definition lower_char :: "char \<Rightarrow> char" where
  "lower_char c =
     (if 65 \<le> (of_char c :: nat) \<and> (of_char c :: nat) \<le> 90
      then (case c of Char b0 b1 b2 b3 b4 b5 b6 b7 \<Rightarrow> Char b0 b1 b2 b3 b4 True b6 b7)
      else c)"

definition ascii_lower :: "string \<Rightarrow> string" where
  "ascii_lower s = map lower_char s"

text \<open>\<open>q in s\<close> on Python strings: \<open>q\<close> occurs in \<open>s\<close> as a contiguous substring.\<close>

fun starts_with :: "string \<Rightarrow> string \<Rightarrow> bool" where
  "starts_with s [] = True"
| "starts_with [] (q # qs) = False"
| "starts_with (c # cs) (q # qs) = (c = q \<and> starts_with cs qs)"

fun str_in :: "string \<Rightarrow> string \<Rightarrow> bool" where
  "str_in q [] = (q = [])"
| "str_in q (c # cs) = (starts_with (c # cs) q \<or> str_in q cs)"

text \<open>\<open>d[k].append(v)\<close> on a \<open>defaultdict(list)\<close>.\<close>

definition dd_append :: "('k \<rightharpoonup> 'v list) \<Rightarrow> 'k \<Rightarrow> 'v \<Rightarrow> ('k \<rightharpoonup> 'v list)" where
  "dd_append m k v = m(k \<mapsto> (case m k of None \<Rightarrow> [] | Some vs \<Rightarrow> vs) @ [v])"

text \<open>\<open>d.get(k, [])\<close>.\<close>

definition get_list :: "('k \<rightharpoonup> 'v list) \<Rightarrow> 'k \<Rightarrow> 'v list" where
  "get_list m k = (case m k of None \<Rightarrow> [] | Some vs \<Rightarrow> vs)"

section \<open>The framework index (framework\_index.py)\<close>

text \<open>The dictionary \<open>_extract_functions_from_file\<close> builds for one definition.\<close>

record func =
  name :: string
  docstring :: string
  cross_references :: "string list"
  is_principle :: bool
  file_name :: string

text \<open>An entry of \<open>function_index\<close>: the extracted fields and the owning framework.\<close>

record func_data = func +
  framework :: string
  framework_name :: string

text \<open>An entry of \<open>principle_index\<close>.\<close>

record principle_data = func +
  principle_framework :: string

text \<open>
  An entry of \<open>self.frameworks\<close>; \<open>'f\<close> is whatever identifies a source file
  (the extractor is a parameter of the build, see below). The dictionary itself is the
  list of its entries in insertion order, found by their code.
\<close>

record 'f framework_info =
  code :: string
  fw_name :: string
  level :: int
  domains :: "string list"
  files :: "'f list"

record index_state =
  function_index :: "(string \<times> func_data) list"
  principle_index :: "(string \<times> principle_data) list"
  domain_index :: "string \<rightharpoonup> string list"
  cross_references_index :: "string \<rightharpoonup> string list"

definition empty_index :: index_state where
  "empty_index = \<lparr>function_index = [], principle_index = [],
     domain_index = Map.empty, cross_references_index = Map.empty\<rparr>"

definition full_name :: "string \<Rightarrow> func \<Rightarrow> string" where
  "full_name c f = c @ '':'' @ name f"

definition mk_func_data :: "'f framework_info \<Rightarrow> func \<Rightarrow> func_data" where
  "mk_func_data fw f = \<lparr>name = name f, docstring = docstring f,
     cross_references = cross_references f, is_principle = is_principle f,
     file_name = file_name f, framework = code fw, framework_name = fw_name fw\<rparr>"

definition mk_principle_data :: "'f framework_info \<Rightarrow> func \<Rightarrow> principle_data" where
  "mk_principle_data fw f = \<lparr>name = name f, docstring = docstring f,
     cross_references = cross_references f, is_principle = is_principle f,
     file_name = file_name f, principle_framework = code fw\<rparr>"

text \<open>The body of \<open>for func in functions\<close> in \<open>_build_indices\<close>.\<close>

definition index_func :: "'f framework_info \<Rightarrow> func \<Rightarrow> index_state \<Rightarrow> index_state" where
  "index_func fw f st =
     (let func_full_name = full_name (code fw) f;
          st1 = st\<lparr>function_index :=
                  AList.update func_full_name (mk_func_data fw f) (function_index st)\<rparr>;
          st2 = fold (\<lambda>d s. s\<lparr>domain_index := dd_append (domain_index s) d func_full_name\<rparr>)
                  (domains fw) st1;
          st3 = fold (\<lambda>r s. s\<lparr>cross_references_index :=
                                 dd_append (cross_references_index s) r func_full_name\<rparr>)
                  (cross_references f) st2
      in if is_principle f \<or> level fw = 1
         then st3\<lparr>principle_index :=
                AList.update (name f) (mk_principle_data fw f) (principle_index st3)\<rparr>
         else st3)"

text \<open>
  \<open>_build_indices\<close>: frameworks in dictionary order, their files in order, the
  functions of a file in extraction order. \<open>extract\<close> stands for
  \<open>_extract_functions_from_file\<close>, whose model comes further down; the build is
  stated for any extractor. The lists \<open>functions\<close> and the counts that the loop also
  stores in each framework entry are read by the statistics only and are left out.
\<close>

definition index_framework ::
  "('f \<Rightarrow> func list) \<Rightarrow> 'f framework_info \<Rightarrow> index_state \<Rightarrow> index_state" where
  "index_framework extract fw st =
     fold (\<lambda>scm_file s. fold (index_func fw) (extract scm_file) s) (files fw) st"

definition build_indices :: "('f \<Rightarrow> func list) \<Rightarrow> 'f framework_info list \<Rightarrow> index_state" where
  "build_indices extract fws = fold (index_framework extract) fws empty_index"

subsection \<open>Queries\<close>

text \<open>\<open>self.frameworks[c]\<close>; a missing key raises \<open>KeyError\<close>.\<close>

definition frameworks_get :: "'f framework_info list \<Rightarrow> string \<Rightarrow> py_error + 'f framework_info" where
  "frameworks_get fws c =
     (case find (\<lambda>fw. code fw = c) fws of None \<Rightarrow> Inl KeyError | Some fw \<Rightarrow> Inr fw)"

text \<open>A search hit: \<open>{'relevance': ..., **func_data}\<close>.\<close>

record search_result = func_data +
  relevance :: string

definition with_relevance :: "string \<Rightarrow> func_data \<Rightarrow> search_result" where
  "with_relevance r fd = \<lparr>name = name fd, docstring = docstring fd,
     cross_references = cross_references fd, is_principle = is_principle fd,
     file_name = file_name fd, framework = framework fd,
     framework_name = framework_name fd, relevance = r\<rparr>"

definition hit_record :: "search_result \<Rightarrow> func_data" where
  "hit_record x = \<lparr>name = name x, docstring = docstring x,
     cross_references = cross_references x, is_principle = is_principle x,
     file_name = file_name x, framework = framework x,
     framework_name = framework_name x\<rparr>"

definition relevance_order :: "string \<Rightarrow> nat" where
  "relevance_order r =
     (if r = ''exact'' then 0 else if r = ''partial'' then 1
      else if r = ''description'' then 2 else 3)"

text \<open>
  The domain check of \<open>search_functions\<close>: \<open>if domain:\<close> is false for \<open>None\<close>
  and for the empty string; otherwise the record is skipped (\<open>continue\<close>) when its
  framework does not list the domain.
\<close>

definition domain_skip ::
  "'f framework_info list \<Rightarrow> string option \<Rightarrow> func_data \<Rightarrow> py_error + bool" where
  "domain_skip fws domain fd =
     (case domain of
        None \<Rightarrow> Inr False
      | Some d \<Rightarrow>
          if d = [] then Inr False
          else (case frameworks_get fws (framework fd) of
                  Inl e \<Rightarrow> Inl e
                | Inr fw \<Rightarrow> Inr (d \<notin> set (domains fw))))"

text \<open>
  The name and docstring tests of the loop body; \<open>lower\<close> stands for \<open>str.lower\<close>, and
  \<open>in\<close> on two strings is \<open>str_in\<close> (on well-formed UTF-8 a substring of bytes is a
  substring of characters).
\<close>

definition match_step ::
  "(string \<Rightarrow> string) \<Rightarrow> string \<Rightarrow> func_data \<Rightarrow> search_result list \<Rightarrow> search_result list" where
  "match_step lower query_lower fd results =
     (if str_in query_lower (lower (name fd))
      then results @ [with_relevance
             (if query_lower = lower (name fd) then ''exact'' else ''partial'') fd]
      else if str_in query_lower (lower (docstring fd))
      then results @ [with_relevance ''description'' fd]
      else results)"

text \<open>The loop of \<open>search_functions\<close> over \<open>function_index.items()\<close>.\<close>

fun search_loop ::
  "(string \<Rightarrow> string) \<Rightarrow> 'f framework_info list \<Rightarrow> string \<Rightarrow> string option \<Rightarrow>
   (string \<times> func_data) list \<Rightarrow> search_result list \<Rightarrow> py_error + search_result list" where
  "search_loop lower fws query_lower domain [] results = Inr results"
| "search_loop lower fws query_lower domain ((func_name, fd) # rest) results =
     (case domain_skip fws domain fd of
        Inl e \<Rightarrow> Inl e
      | Inr True \<Rightarrow> search_loop lower fws query_lower domain rest results
      | Inr False \<Rightarrow>
          search_loop lower fws query_lower domain rest (match_step lower query_lower fd results))"

text \<open>\<open>list.sort(key=...)\<close> is stable, as \<open>sort_key\<close> is.\<close>

definition search_functions ::
  "(string \<Rightarrow> string) \<Rightarrow> 'f framework_info list \<Rightarrow> index_state \<Rightarrow> string \<Rightarrow> string option \<Rightarrow>
   py_error + search_result list" where
  "search_functions lower fws idx query domain =
     (case search_loop lower fws (lower query) domain (function_index idx) [] of
        Inl e \<Rightarrow> Inl e
      | Inr results \<Rightarrow> Inr (sort_key (\<lambda>x. relevance_order (relevance x)) results))"

text \<open>An element of the result of \<open>find_principles_by_domain\<close>.\<close>

record principle_result =
  pr_name :: string
  pr_framework :: string
  pr_docstring :: string
  pr_file :: string

text \<open>
  The inner loop of \<open>find_principles_by_domain\<close> over the domain's function names;
  it stops (\<open>break\<close>) only after appending.
\<close>

fun scan_domain_funcs ::
  "(string \<times> func_data) list \<Rightarrow> string \<Rightarrow> principle_data \<Rightarrow> string list \<Rightarrow>
   principle_result list \<Rightarrow> principle_result list" where
  "scan_domain_funcs fi principle_name pd [] principles = principles"
| "scan_domain_funcs fi principle_name pd (func_name # rest) principles =
     (if principle_name \<in> set (case map_of fi func_name of
                                  None \<Rightarrow> [] | Some fd \<Rightarrow> cross_references fd)
      then (if principle_name \<notin> set (map pr_name principles)
            then principles @ [\<lparr>pr_name = principle_name,
                                  pr_framework = principle_framework pd,
                                  pr_docstring = docstring pd,
                                  pr_file = file_name pd\<rparr>]
            else scan_domain_funcs fi principle_name pd rest principles)
      else scan_domain_funcs fi principle_name pd rest principles)"

definition find_principles_by_domain :: "index_state \<Rightarrow> string \<Rightarrow> principle_result list" where
  "find_principles_by_domain idx domain =
     fold (\<lambda>(principle_name, pd) principles.
             scan_domain_funcs (function_index idx) principle_name pd
               (get_list (domain_index idx) domain) principles)
          (principle_index idx) []"

text \<open>\<open>[self.function_index[n] for n in names]\<close>: the first missing key raises.\<close>

fun lookup_all :: "(string \<times> func_data) list \<Rightarrow> string list \<Rightarrow> py_error + func_data list" where
  "lookup_all fi [] = Inr []"
| "lookup_all fi (n # ns) =
     (case map_of fi n of
        None \<Rightarrow> Inl KeyError
      | Some fd \<Rightarrow> (case lookup_all fi ns of Inl e \<Rightarrow> Inl e | Inr fds \<Rightarrow> Inr (fd # fds)))"

definition find_derived_rules :: "index_state \<Rightarrow> string \<Rightarrow> py_error + func_data list" where
  "find_derived_rules idx principle_name =
     lookup_all (function_index idx) (get_list (cross_references_index idx) principle_name)"

text \<open>A node of an inference chain; the target node also carries its index entry.\<close>

record chain_node =
  node :: string
  node_type :: string
  node_level :: int
  attached :: "func_data option"

text \<open>
  The loop of \<open>build_inference_chain\<close>: it leaves (\<open>break\<close>) at the first entry
  whose name is \<open>end_function\<close>, whether or not that entry references the principle.
\<close>

fun chain_loop :: "(string \<times> func_data) list \<Rightarrow> string \<Rightarrow> string \<Rightarrow> chain_node list" where
  "chain_loop [] start_principle end_function = []"
| "chain_loop ((func_name, fd) # rest) start_principle end_function =
     (if name fd = end_function
      then (if start_principle \<in> set (cross_references fd)
            then [\<lparr>node = start_principle, node_type = ''principle'', node_level = 1,
                    attached = None\<rparr>,
                  \<lparr>node = end_function, node_type = ''rule'', node_level = 2,
                    attached = Some fd\<rparr>]
            else [])
      else chain_loop rest start_principle end_function)"

definition build_inference_chain :: "index_state \<Rightarrow> string \<Rightarrow> string \<Rightarrow> chain_node list option" where
  "build_inference_chain idx start_principle end_function =
     (let chain = chain_loop (function_index idx) start_principle end_function
      in if chain \<noteq> [] then Some chain else None)"

text \<open>\<open>InferenceAPI.chain\<close> (chainlex\_api.py) forwards to the index.\<close>

definition chain :: "index_state \<Rightarrow> string \<Rightarrow> string \<Rightarrow> chain_node list option" where
  "chain idx start end_name = build_inference_chain idx start end_name"

subsection \<open>The corpus in discovery order\<close>

text \<open>
  Every extracted definition with its framework, in the order in which
  \<open>_build_indices\<close> meets them, and the \<open>function_index\<close> key and entry each
  one is stored under.
\<close>

definition corpus ::
  "('f \<Rightarrow> func list) \<Rightarrow> 'f framework_info list \<Rightarrow> ('f framework_info \<times> func) list" where
  "corpus extract fws =
     concat (map (\<lambda>fw. map (Pair fw) (concat (map extract (files fw)))) fws)"

definition all_records ::
  "('f \<Rightarrow> func list) \<Rightarrow> 'f framework_info list \<Rightarrow> (string \<times> func_data) list" where
  "all_records extract fws =
     map (\<lambda>(fw, f). (full_name (code fw) f, mk_func_data fw f)) (corpus extract fws)"

subsection \<open>Example corpora\<close>

text \<open>
  Two documents of framework \<open>civ\<close> that both define \<open>contract-valid?\<close>; a file
  is given by the list its extraction returns, so the extractor is \<open>id\<close>.
\<close>

definition first_def :: func where
  "first_def = \<lparr>name = ''contract-valid?'', docstring = ''first'',
     cross_references = [''pacta-sunt-servanda''], is_principle = False,
     file_name = ''a.scm''\<rparr>"

definition second_def :: func where
  "second_def = \<lparr>name = ''contract-valid?'', docstring = ''second'',
     cross_references = [], is_principle = False, file_name = ''b.scm''\<rparr>"

definition civ_dup :: "func list framework_info" where
  "civ_dup = \<lparr>code = ''civ'', fw_name = ''Civil Law (ZA)'', level = 2,
     domains = [''contract'', ''delict'', ''property'', ''family''],
     files = [[first_def], [second_def]]\<rparr>"

text \<open>
  Two frameworks that each define a rule with the local name \<open>valid?\<close>; only the
  criminal-law one references the principle \<open>nullum-crimen-sine-lege\<close>.
\<close>

definition civ_valid :: func where
  "civ_valid = \<lparr>name = ''valid?'', docstring = ''Validity of a contract'',
     cross_references = [], is_principle = False, file_name = ''contract.scm''\<rparr>"

definition cri_valid :: func where
  "cri_valid = \<lparr>name = ''valid?'', docstring = ''Validity of a charge'',
     cross_references = [''nullum-crimen-sine-lege''], is_principle = False,
     file_name = ''charge.scm''\<rparr>"

definition civ_fw :: "func list framework_info" where
  "civ_fw = \<lparr>code = ''civ'', fw_name = ''Civil Law (ZA)'', level = 2,
     domains = [''contract'', ''delict'', ''property'', ''family''],
     files = [[civ_valid]]\<rparr>"

definition cri_fw :: "func list framework_info" where
  "cri_fw = \<lparr>code = ''cri'', fw_name = ''Criminal Law (ZA)'', level = 2,
     domains = [''criminal''], files = [[cri_valid]]\<rparr>"

text \<open>
  The end-to-end corpus of the specification: the principle \<open>pacta-sunt-servanda\<close>
  in \<open>lv1\<close> and the rule \<open>contract-valid?\<close> in \<open>civ\<close> that references it.
\<close>

definition pacta :: func where
  "pacta = \<lparr>name = ''pacta-sunt-servanda'', docstring = ''Agreements must be kept'',
     cross_references = [], is_principle = True, file_name = ''principles.scm''\<rparr>"

definition contract_valid :: func where
  "contract_valid = \<lparr>name = ''contract-valid?'', docstring = ''A contract is valid'',
     cross_references = [''pacta-sunt-servanda''], is_principle = False,
     file_name = ''contract.scm''\<rparr>"

definition lv1_fw :: "func list framework_info" where
  "lv1_fw = \<lparr>code = ''lv1'', fw_name = ''Level 1 Principles'', level = 1,
     domains = [], files = [[pacta]]\<rparr>"

definition civ_contract_fw :: "func list framework_info" where
  "civ_contract_fw = \<lparr>code = ''civ'', fw_name = ''Civil Law (ZA)'', level = 2,
     domains = [''contract'', ''delict'', ''property'', ''family''],
     files = [[contract_valid]]\<rparr>"

subsection \<open>Predicates of the specification\<close>

text \<open>
  \<open>p\<close> is referenced by at least one record indexed under the domain: some qualified
  name listed in \<open>domain_index[domain]\<close> has an entry in \<open>function_index\<close> whose
  cross-references contain \<open>p\<close>.
\<close>

definition referenced_in_domain :: "index_state \<Rightarrow> string \<Rightarrow> string \<Rightarrow> bool" where
  "referenced_in_domain idx domain p =
     (\<exists>qn \<in> set (get_list (domain_index idx) domain).
        case map_of (function_index idx) qn of
          None \<Rightarrow> False
        | Some fd \<Rightarrow> p \<in> set (cross_references fd))"

text \<open>
  The reading of claim C6: the record's framework declares the domain; the record is a
  candidate under the optional domain filter (no filter for \<open>None\<close> and for the
  empty string, which \<open>if domain:\<close> treats alike); and the three kinds of match,
  all case-insensitive.
\<close>

definition declares_domain :: "'f framework_info list \<Rightarrow> func_data \<Rightarrow> string \<Rightarrow> bool" where
  "declares_domain fws fd d =
     (case frameworks_get fws (framework fd) of Inl e \<Rightarrow> False | Inr fw \<Rightarrow> d \<in> set (domains fw))"

definition candidate :: "'f framework_info list \<Rightarrow> string option \<Rightarrow> func_data \<Rightarrow> bool" where
  "candidate fws domain fd =
     (case domain of None \<Rightarrow> True | Some d \<Rightarrow> d = [] \<or> declares_domain fws fd d)"

definition exact_match :: "(string \<Rightarrow> string) \<Rightarrow> string \<Rightarrow> func_data \<Rightarrow> bool" where
  "exact_match lower q fd = (lower q = lower (name fd))"

definition partial_match :: "(string \<Rightarrow> string) \<Rightarrow> string \<Rightarrow> func_data \<Rightarrow> bool" where
  "partial_match lower q fd = (str_in (lower q) (lower (name fd)) \<and> lower q \<noteq> lower (name fd))"

definition doc_only_match :: "(string \<Rightarrow> string) \<Rightarrow> string \<Rightarrow> func_data \<Rightarrow> bool" where
  "doc_only_match lower q fd =
     (\<not> str_in (lower q) (lower (name fd)) \<and> str_in (lower q) (lower (docstring fd)))"

definition candidates :: "'f framework_info list \<Rightarrow> index_state \<Rightarrow> string option \<Rightarrow> func_data list" where
  "candidates fws idx domain = filter (candidate fws domain) (map snd (function_index idx))"

text \<open>
  A framework for ranking: in file order a rule matching only in its documentation, a
  rule matching as part of its name, and a rule whose name is the query up to case.
\<close>

definition offer_rule :: func where
  "offer_rule = \<lparr>name = ''offer'', docstring = ''A Contract needs an offer'',
     cross_references = [], is_principle = False, file_name = ''contract.scm''\<rparr>"

definition contract_rule :: func where
  "contract_rule = \<lparr>name = ''Contract'', docstring = ''Agreement enforceable by law'',
     cross_references = [], is_principle = False, file_name = ''contract.scm''\<rparr>"

definition civ_search_fw :: "func list framework_info" where
  "civ_search_fw = \<lparr>code = ''civ'', fw_name = ''Civil Law (ZA)'', level = 2,
     domains = [''contract'', ''delict'', ''property'', ''family''],
     files = [[offer_rule, contract_valid, contract_rule]]\<rparr>"

section \<open>Confidence of an inference chain (chainlex\_api.py)\<close>

text \<open>
  The arithmetic of Python's floats is a parameter of the model: the float a decimal
  literal denotes, the product of two floats, a float raised to a natural number
  (\<open>x ** n\<close>, computed by the C library), and \<open>round(x, ndigits)\<close>. What holds for
  every such arithmetic holds for the floating point the code runs on.
\<close>

record 'r float_ops =
  flit :: "real \<Rightarrow> 'r"
  fmul :: "'r \<Rightarrow> 'r \<Rightarrow> 'r"
  fpow :: "'r \<Rightarrow> nat \<Rightarrow> 'r"
  fround :: "'r \<Rightarrow> nat \<Rightarrow> 'r"

text \<open>\<open>factors.get(inf_type, 0.95)\<close> on the table of \<open>InferenceAPI.confidence\<close>.\<close>

definition factors_get :: "'r float_ops \<Rightarrow> string \<Rightarrow> 'r" where
  "factors_get ops inf_type =
     (if inf_type = ''deductive'' then flit ops 0.95
      else if inf_type = ''inductive'' then flit ops 0.80
      else if inf_type = ''abductive'' then flit ops 0.70
      else if inf_type = ''analogical'' then flit ops 0.65
      else flit ops 0.95)"

text \<open>
  \<open>InferenceAPI.confidence(chain, inference_types=None)\<close>. The test
  \<open>if inference_types:\<close> fails for \<open>None\<close> and for the empty list alike.
\<close>

definition confidence :: "'r float_ops \<Rightarrow> 'a list \<Rightarrow> string list option \<Rightarrow> 'r" where
  "confidence ops nodes inference_types =
     (if nodes = [] then flit ops 0.0
      else
        let c0 = flit ops 1.0;
            c1 = (case inference_types of
                    Some ts \<Rightarrow>
                      if ts \<noteq> []
                      then fold (\<lambda>inf_type c. fmul ops c (factors_get ops inf_type)) ts c0
                      else fmul ops c0 (fpow ops (flit ops 0.95) (length nodes - 1))
                  | None \<Rightarrow> fmul ops c0 (fpow ops (flit ops 0.95) (length nodes - 1)))
        in fround ops c1 4)"

text \<open>
  Exact arithmetic: every literal denotes its own value, products and powers are exact,
  and \<open>round(x, n)\<close> rounds to \<open>n\<close> decimal places with ties going to the even
  neighbour, as Python's \<open>round\<close> does on the value it is given. Floating point differs
  from it by the rounding of every intermediate result.
\<close>

definition round_half_even :: "real \<Rightarrow> int" where
  "round_half_even x =
     (let f = \<lfloor>x\<rfloor>; d = x - of_int f
      in if d < 1 / 2 then f
         else if 1 / 2 < d then f + 1
         else if even f then f else f + 1)"

definition py_round :: "real \<Rightarrow> nat \<Rightarrow> real" where
  "py_round x ndigits = of_int (round_half_even (x * 10 ^ ndigits)) / 10 ^ ndigits"

definition exact_ops :: "real float_ops" where
  "exact_ops = \<lparr>flit = (\<lambda>q. q), fmul = (\<lambda>x y. x * y), fpow = (\<lambda>x n. x ^ n),
     fround = py_round\<rparr>"

text \<open>The two nodes of the end-to-end chain.\<close>

definition pacta_node :: chain_node where
  "pacta_node = \<lparr>node = ''pacta-sunt-servanda'', node_type = ''principle'', node_level = 1,
     attached = None\<rparr>"

definition contract_valid_node :: chain_node where
  "contract_valid_node = \<lparr>node = ''contract-valid?'', node_type = ''rule'', node_level = 2,
     attached = Some (mk_func_data civ_contract_fw contract_valid)\<rparr>"

section \<open>Graph queries (enhanced\_hypergraph.py)\<close>

text \<open>
  Node identifiers come from a pickled graph and may be integers or strings;
  \<open>truthy\<close> is Python's truth value of such an object.
\<close>

datatype py_value = PInt int | PStr string

definition truthy :: "py_value \<Rightarrow> bool" where
  "truthy v = (case v of PInt n \<Rightarrow> n \<noteq> 0 | PStr s \<Rightarrow> s \<noteq> [])"

text \<open>\<open>not x\<close> for the result \<open>x\<close> of \<open>dict.get\<close>, which is \<open>None\<close> for a missing key.\<close>

definition py_not :: "py_value option \<Rightarrow> bool" where
  "py_not x = (case x of None \<Rightarrow> True | Some v \<Rightarrow> \<not> truthy v)"

text \<open>
  The directed graph: its nodes, the successors of a node in adjacency order, and the
  \<open>name\<close> attribute of a node where it has one.
\<close>

record nx_digraph =
  graph_nodes :: "py_value list"
  successors :: "py_value \<Rightarrow> py_value list"
  name_attr :: "py_value \<Rightarrow> py_value option"

record hypergraph_api =
  graph :: "nx_digraph option"
  node_index :: "string \<Rightarrow> py_value option"

definition is_available :: "hypergraph_api \<Rightarrow> bool" where
  "is_available api = (graph api \<noteq> None)"

text \<open>\<open>self.graph.nodes[node_id].get('name', node_id)\<close>.\<close>

definition node_label :: "nx_digraph \<Rightarrow> py_value \<Rightarrow> py_value" where
  "node_label g node_id = (case name_attr g node_id of None \<Rightarrow> node_id | Some n \<Rightarrow> n)"

datatype nx_error = NetworkXNoPath | NxNodeNotFound

text \<open>
  \<open>find_path\<close>. \<open>shortest_path\<close> stands for \<open>nx.shortest_path\<close>, a library function
  outside the repository; only \<open>NetworkXNoPath\<close> is caught.
\<close>

definition find_path ::
  "(nx_digraph \<Rightarrow> py_value \<Rightarrow> py_value \<Rightarrow> nx_error + py_value list) \<Rightarrow>
   hypergraph_api \<Rightarrow> string \<Rightarrow> string \<Rightarrow> nx_error + py_value list option" where
  "find_path shortest_path api start end_name =
     (case graph api of
        None \<Rightarrow> Inr None
      | Some g \<Rightarrow>
          (let start_id = node_index api start; end_id = node_index api end_name
           in if py_not start_id \<or> py_not end_id then Inr None
              else (case shortest_path g (the start_id) (the end_id) of
                      Inl NetworkXNoPath \<Rightarrow> Inr None
                    | Inl e \<Rightarrow> Inl e
                    | Inr path \<Rightarrow> Inr (Some (map (node_label g) path)))))"

text \<open>
  \<open>find_all_paths\<close>. \<open>all_simple_paths\<close> stands for \<open>nx.all_simple_paths\<close> with its
  \<open>cutoff\<close> argument.
\<close>

definition find_all_paths ::
  "(nx_digraph \<Rightarrow> py_value \<Rightarrow> py_value \<Rightarrow> int \<Rightarrow> nx_error + py_value list list) \<Rightarrow>
   hypergraph_api \<Rightarrow> string \<Rightarrow> string \<Rightarrow> int \<Rightarrow> nx_error + py_value list list" where
  "find_all_paths all_simple_paths api start end_name max_length =
     (case graph api of
        None \<Rightarrow> Inr []
      | Some g \<Rightarrow>
          (let start_id = node_index api start; end_id = node_index api end_name
           in if py_not start_id \<or> py_not end_id then Inr []
              else (case all_simple_paths g (the start_id) (the end_id) max_length of
                      Inl NetworkXNoPath \<Rightarrow> Inr []
                    | Inl e \<Rightarrow> Inl e
                    | Inr paths \<Rightarrow> Inr (map (map (node_label g)) paths))))"

subsection \<open>Simple-path enumeration\<close>

text \<open>
  Modelled from the spec: \<open>nx.all_simple_paths\<close> belongs to the networkx library, not to
  the repository. The specification asks for every simple path (no repeated nodes) of at
  most \<open>maxLength\<close> edges; the model is the depth-first enumeration that networkx
  documents: children are visited in adjacency order, a child already on the path is
  skipped, a path is reported when the child is the target, and it is extended through
  any other child while fewer than \<open>cutoff\<close> edges are used. \<open>budget\<close> is the number
  of edges that may still follow the one being added. A source or target outside the
  graph is an error; a source equal to the target gives the one-node path.
\<close>

fun explore ::
  "(py_value \<Rightarrow> py_value list) \<Rightarrow> py_value \<Rightarrow> nat \<Rightarrow> py_value list \<Rightarrow> py_value list \<Rightarrow>
   py_value list list" where
  "explore adj target budget path [] = []"
| "explore adj target budget path (child # children) =
     (if child \<in> set path then explore adj target budget path children
      else (if child = target then [path @ [child]]
            else (case budget of
                    0 \<Rightarrow> []
                  | Suc b \<Rightarrow> explore adj target b (path @ [child]) (adj child)))
           @ explore adj target budget path children)"

text \<open>
  Modelled from the spec: the entry point of the enumeration, with the checks of the
  arguments that come before the search.
\<close>

definition nx_all_simple_paths ::
  "nx_digraph \<Rightarrow> py_value \<Rightarrow> py_value \<Rightarrow> int \<Rightarrow> nx_error + py_value list list" where
  "nx_all_simple_paths g source target cutoff =
     (if source \<notin> set (graph_nodes g) \<or> target \<notin> set (graph_nodes g) then Inl NxNodeNotFound
      else if cutoff < 0 then Inr []
      else if source = target then Inr [[source]]
      else if cutoff = 0 then Inr []
      else Inr (explore (successors g) target (nat cutoff - 1) [source] (successors g source)))"

text \<open>A list of nodes follows the edges of the graph.\<close>

fun is_path :: "(py_value \<Rightarrow> py_value list) \<Rightarrow> py_value list \<Rightarrow> bool" where
  "is_path adj [] = True"
| "is_path adj [x] = True"
| "is_path adj (x # y # rest) = (y \<in> set (adj x) \<and> is_path adj (y # rest))"

text \<open>The cyclic graph of the specification: \<open>A\<rightarrow>B\<close>, \<open>B\<rightarrow>C\<close>, \<open>C\<rightarrow>A\<close> and \<open>A\<rightarrow>D\<close>.\<close>

definition cycle_graph :: nx_digraph where
  "cycle_graph = \<lparr>graph_nodes = [PStr ''A'', PStr ''B'', PStr ''C'', PStr ''D''],
     successors = (\<lambda>v. if v = PStr ''A'' then [PStr ''B'', PStr ''D'']
                        else if v = PStr ''B'' then [PStr ''C'']
                        else if v = PStr ''C'' then [PStr ''A'']
                        else []),
     name_attr = (\<lambda>v. Some v)\<rparr>"

definition cycle_api :: hypergraph_api where
  "cycle_api = \<lparr>graph = Some cycle_graph,
     node_index = (\<lambda>n. if n \<in> set [''A'', ''B'', ''C'', ''D''] then Some (PStr n) else None)\<rparr>"

text \<open>A graph whose first node has the identifier \<open>0\<close>, with the edge \<open>0\<rightarrow>1\<close>.\<close>

definition zero_graph :: nx_digraph where
  "zero_graph = \<lparr>graph_nodes = [PInt 0, PInt 1],
     successors = (\<lambda>v. if v = PInt 0 then [PInt 1] else []),
     name_attr = (\<lambda>v. if v = PInt 0 then Some (PStr ''root'')
                       else if v = PInt 1 then Some (PStr ''leaf'') else None)\<rparr>"

definition zero_api :: hypergraph_api where
  "zero_api = \<lparr>graph = Some zero_graph,
     node_index = (\<lambda>n. if n = ''root'' then Some (PInt 0)
                        else if n = ''leaf'' then Some (PInt 1) else None)\<rparr>"

section \<open>Record extraction (framework\_index.py)\<close>

text \<open>
  A source file is its name and its bytes. \<open>open(..., encoding='utf-8')\<close> and
  \<open>f.read()\<close> decode the bytes strictly and translate \<open>\r\n\<close> and \<open>\r\<close> to
  \<open>\n\<close>. The decoded text is the list of its characters, each kept as its UTF-8
  bytes, so that an ASCII text is read as it is written and positions count
  characters, as Python's slices do.
\<close>

type_synonym uchar = string
type_synonym py_text = "uchar list"

text \<open>The byte at offset \<open>i\<close> exists and lies between \<open>lo\<close> and \<open>hi\<close>.\<close>

definition byte_in :: "string \<Rightarrow> nat \<Rightarrow> nat \<Rightarrow> nat \<Rightarrow> bool" where
  "byte_in bs i lo hi = (i < length bs \<and> lo \<le> (of_char (bs ! i) :: nat) \<and> (of_char (bs ! i) :: nat) \<le> hi)"

text \<open>
  The length of the well-formed UTF-8 sequence that starts with \<open>b0\<close> and goes on in
  \<open>r\<close>, if there is one: no overlong form, no surrogate, nothing above U+10FFFF.
\<close>

definition char_len :: "char \<Rightarrow> string \<Rightarrow> nat option" where
  "char_len b0 r =
     (let n0 = (of_char b0 :: nat) in
      if n0 < 0x80 then Some 1
      else if 0xC2 \<le> n0 \<and> n0 \<le> 0xDF then
        (if byte_in r 0 0x80 0xBF then Some 2 else None)
      else if 0xE0 \<le> n0 \<and> n0 \<le> 0xEF then
        (if byte_in r 0 (if n0 = 0xE0 then 0xA0 else 0x80) (if n0 = 0xED then 0x9F else 0xBF)
            \<and> byte_in r 1 0x80 0xBF then Some 3 else None)
      else if 0xF0 \<le> n0 \<and> n0 \<le> 0xF4 then
        (if byte_in r 0 (if n0 = 0xF0 then 0x90 else 0x80) (if n0 = 0xF4 then 0x8F else 0xBF)
            \<and> byte_in r 1 0x80 0xBF \<and> byte_in r 2 0x80 0xBF then Some 4 else None)
      else None)"

fun decode_utf8 :: "string \<Rightarrow> py_error + py_text" where
  "decode_utf8 [] = Inr []"
| "decode_utf8 (b # bs) =
     (case char_len b bs of
        None \<Rightarrow> Inl UnicodeDecodeError
      | Some n \<Rightarrow>
          (case decode_utf8 (drop (n - 1) bs) of
             Inl e \<Rightarrow> Inl e
           | Inr t \<Rightarrow> Inr ((b # take (n - 1) bs) # t)))"

text \<open>Universal newlines of text mode.\<close>

fun universal_newlines :: "py_text \<Rightarrow> py_text" where
  "universal_newlines [] = []"
| "universal_newlines [u] = (if u = [CHR 0x0D] then [[CHR 0x0A]] else [u])"
| "universal_newlines (u # v # rest) =
     (if u = [CHR 0x0D] then
        (if v = [CHR 0x0A] then [CHR 0x0A] # universal_newlines rest
         else [CHR 0x0A] # universal_newlines (v # rest))
      else u # universal_newlines (v # rest))"

text \<open>
  The classes \<open>\w\<close> and \<open>\s\<close> of \<open>re\<close> on a \<open>str\<close> pattern. On ASCII they are
  the letters, digits and underscore, and the characters 9 to 13 and 28 to 32; beyond
  ASCII they follow the Unicode database, which the model takes as two tables.
\<close>

record unicode_tables =
  alnum_table :: "uchar \<Rightarrow> bool"
  space_table :: "uchar \<Rightarrow> bool"

definition is_word :: "unicode_tables \<Rightarrow> uchar \<Rightarrow> bool" where
  "is_word ut u =
     (case u of
        [b] \<Rightarrow> (let n = (of_char b :: nat)
                in (48 \<le> n \<and> n \<le> 57) \<or> (65 \<le> n \<and> n \<le> 90) \<or> n = 95 \<or> (97 \<le> n \<and> n \<le> 122))
      | _ \<Rightarrow> alnum_table ut u)"

definition is_space :: "unicode_tables \<Rightarrow> uchar \<Rightarrow> bool" where
  "is_space ut u =
     (case u of
        [b] \<Rightarrow> (let n = (of_char b :: nat) in (9 \<le> n \<and> n \<le> 13) \<or> (28 \<le> n \<and> n \<le> 32))
      | _ \<Rightarrow> space_table ut u)"

text \<open>The text after a literal at the start of \<open>t\<close>, and after its first occurrence.\<close>

fun strip_lit :: "string \<Rightarrow> py_text \<Rightarrow> py_text option" where
  "strip_lit [] t = Some t"
| "strip_lit (c # cs) [] = None"
| "strip_lit (c # cs) (u # us) = (if u = [c] then strip_lit cs us else None)"

fun find_lit :: "string \<Rightarrow> py_text \<Rightarrow> py_text option" where
  "find_lit l [] = strip_lit l []"
| "find_lit l (u # us) =
     (case strip_lit l (u # us) of Some r \<Rightarrow> Some r | None \<Rightarrow> find_lit l us)"

text \<open>
  One match of \<open>\(define\s+\(?(\w[\w-]*\??)\s*(?:\(lambda|\)?)\<close> at the start of
  \<open>t\<close>: group 1 and the length of the match. After the literal the white space is
  taken greedily; giving some of it back never helps, since the next character must be
  \<open>(\<close> or a word character. The name is a word character, the longest run of word
  characters and hyphens, and one \<open>?\<close> if present; what follows can always match the
  empty string, so nothing is given back: the longest white space, then \<open>(lambda\<close>
  if it is there, otherwise one \<open>)\<close> if it is there.
\<close>

definition match_define :: "unicode_tables \<Rightarrow> py_text \<Rightarrow> (string \<times> nat) option" where
  "match_define ut t =
     (case strip_lit ''(define'' t of
        None \<Rightarrow> None
      | Some t1 \<Rightarrow>
          (let ws = takeWhile (is_space ut) t1;
               t2 = dropWhile (is_space ut) t1;
               paren = (case t2 of u # r \<Rightarrow> u = ''('' | [] \<Rightarrow> False);
               t3 = (if paren then tl t2 else t2)
           in if ws = [] then None
              else (case t3 of
                      [] \<Rightarrow> None
                    | u # r \<Rightarrow>
                        if \<not> is_word ut u then None
                        else
                          (let body = takeWhile (\<lambda>x. is_word ut x \<or> x = ''-'') r;
                               t4 = dropWhile (\<lambda>x. is_word ut x \<or> x = ''-'') r;
                               q = (case t4 of v # r' \<Rightarrow> v = ''?'' | [] \<Rightarrow> False);
                               t5 = (if q then tl t4 else t4);
                               ws2 = takeWhile (is_space ut) t5;
                               t6 = dropWhile (is_space ut) t5;
                               closing =
                                 (case strip_lit ''(lambda'' t6 of
                                    Some r' \<Rightarrow> 7
                                  | None \<Rightarrow> (case t6 of v # r' \<Rightarrow> if v = '')'' then 1 else 0
                                             | [] \<Rightarrow> 0))
                           in Some (concat (u # body) @ (if q then ''?'' else ''''),
                                    7 + length ws + (if paren then 1 else 0) + 1 + length body
                                      + (if q then 1 else 0) + length ws2 + closing)))))"

text \<open>
  \<open>re.finditer\<close>: matches from left to right, the search resuming where a match
  ended. Each match is given with the text after its end.
\<close>

fun find_defines :: "unicode_tables \<Rightarrow> py_text \<Rightarrow> (string \<times> py_text) list" where
  "find_defines ut [] = []"
| "find_defines ut (u # us) =
     (case match_define ut (u # us) of
        None \<Rightarrow> find_defines ut us
      | Some (func_name, n) \<Rightarrow>
          (func_name, drop (n - 1) us) # find_defines ut (drop (n - 1) us))"

text \<open>
  \<open>re.search(r'"([^"]*)"', window)\<close>: the text between the first two double quotes of
  the window, and the empty docstring when the window has fewer than two.
\<close>

definition find_docstring :: "py_text \<Rightarrow> string" where
  "find_docstring window =
     (case dropWhile (\<lambda>u. u \<noteq> [CHR 0x22]) window of
        [] \<Rightarrow> ''''
      | q # r \<Rightarrow>
          if dropWhile (\<lambda>u. u \<noteq> [CHR 0x22]) r = [] then ''''
          else concat (takeWhile (\<lambda>u. u \<noteq> [CHR 0x22]) r))"

text \<open>\<open>re.findall(r'[\w-]+', refs)\<close>: the maximal runs of word characters and hyphens.\<close>

function word_runs :: "unicode_tables \<Rightarrow> py_text \<Rightarrow> string list" where
  "word_runs ut [] = []"
| "word_runs ut (u # us) =
     (if is_word ut u \<or> u = ''-''
      then concat (u # takeWhile (\<lambda>x. is_word ut x \<or> x = ''-'') us)
             # word_runs ut (dropWhile (\<lambda>x. is_word ut x \<or> x = ''-'') us)
      else word_runs ut us)"
  by pat_completeness auto
termination
  by (relation "measure (\<lambda>(ut, t). length t)")
     (auto simp: le_imp_less_Suc length_dropWhile_le)

text \<open>
  \<open>re.search(r'Cross-reference:\s*([^\n]+)', window)\<close> and the names in its group:
  after the first occurrence of the label and the white space that follows it, the rest
  of the line. When nothing but white space follows the label, the group is white space
  or there is no match, and no name is found either way.
\<close>

definition find_cross_refs :: "unicode_tables \<Rightarrow> py_text \<Rightarrow> string list" where
  "find_cross_refs ut window =
     (case find_lit ''Cross-reference:'' window of
        None \<Rightarrow> []
      | Some r \<Rightarrow>
          word_runs ut (takeWhile (\<lambda>u. u \<noteq> [CHR 0x0A]) (dropWhile (is_space ut) r)))"

record scm_file =
  path_name :: string
  file_bytes :: string

text \<open>The body of the loop over the matches: one dictionary per match.\<close>

definition make_func :: "unicode_tables \<Rightarrow> string \<Rightarrow> string \<times> py_text \<Rightarrow> func" where
  "make_func ut fname m =
     \<lparr>name = fst m,
      docstring = find_docstring (take 500 (snd m)),
      cross_references = find_cross_refs ut (take 1000 (snd m)),
      is_principle = (find_lit ''Level 1'' (take 1000 (snd m)) \<noteq> None),
      file_name = fname\<rparr>"

text \<open>
  \<open>_extract_functions_from_file\<close>: the whole body is inside one \<open>try\<close>; on an
  exception the message is printed and the empty list returned. The second component
  is what was printed.
\<close>

definition extract_with_report ::
  "unicode_tables \<Rightarrow> scm_file \<Rightarrow> func list \<times> py_error list" where
  "extract_with_report ut f =
     (case decode_utf8 (file_bytes f) of
        Inl e \<Rightarrow> ([], [e])
      | Inr decoded \<Rightarrow>
          (map (make_func ut (path_name f)) (find_defines ut (universal_newlines decoded)), []))"

definition extract_functions_from_file :: "unicode_tables \<Rightarrow> scm_file \<Rightarrow> func list" where
  "extract_functions_from_file ut f = fst (extract_with_report ut f)"

text \<open>
  Example documents: a well-formed definition, and a definition that contains the byte
  \<open>0xFF\<close>, which no UTF-8 text contains. The tables of \<open>ascii_only\<close> are never
  consulted on them.
\<close>

definition ascii_only :: unicode_tables where
  "ascii_only = \<lparr>alnum_table = (\<lambda>u. False), space_table = (\<lambda>u. False)\<rparr>"

definition good_text :: string where
  "good_text = ''(define (contract-valid? c)'' @ [CHR 0x0A]
     @ ''  ;; Cross-reference: pacta-sunt-servanda, good-faith'' @ [CHR 0x0A] @ ''  c)'' @ [CHR 0x0A]"

definition bad_text :: string where
  "bad_text = ''(define (offer? o) '' @ [CHR 0xFF] @ '')'' @ [CHR 0x0A]"

definition good_file :: scm_file where
  "good_file = \<lparr>path_name = ''contract.scm'', file_bytes = good_text\<rparr>"

definition mixed_file :: scm_file where
  "mixed_file = \<lparr>path_name = ''contract.scm'', file_bytes = good_text @ bad_text\<rparr>"

definition civ_files :: "scm_file list \<Rightarrow> scm_file framework_info" where
  "civ_files fs = \<lparr>code = ''civ'', fw_name = ''Civil Law (ZA)'', level = 2,
     domains = [''contract'', ''delict'', ''property'', ''family''], files = fs\<rparr>"

section \<open>The build as a fold over the corpus\<close>

lemma fold_concat_map: "fold f (concat (map g xs)) = fold (\<lambda>x. fold f (g x)) xs"
proof
  fix s show "fold f (concat (map g xs)) s = fold (\<lambda>x. fold f (g x)) xs s"
    by (induction xs arbitrary: s) auto
qed

lemma fold_map_Pair: "fold (\<lambda>(a, b). h a b) (map (Pair a) bs) = fold (h a) bs"
  by (simp add: fold_map comp_def)

lemma build_indices_corpus:
  "build_indices extract fws =
     fold (\<lambda>(fw, f). index_func fw f) (corpus extract fws) empty_index"
  unfolding build_indices_def corpus_def index_framework_def [abs_def]
  by (simp add: fold_concat_map fold_map_Pair)

lemma fold_domain_function_index:
  "function_index (fold (\<lambda>d s. s\<lparr>domain_index := g s d\<rparr>) ds st) = function_index st"
  by (induction ds arbitrary: st) auto

lemma fold_xref_function_index:
  "function_index (fold (\<lambda>d s. s\<lparr>cross_references_index := g s d\<rparr>) ds st) =
     function_index st"
  by (induction ds arbitrary: st) auto

lemma function_index_index_func:
  "function_index (index_func fw f st) =
     AList.update (full_name (code fw) f) (mk_func_data fw f) (function_index st)"
  by (simp add: index_func_def Let_def fold_domain_function_index fold_xref_function_index)

lemma function_index_fold:
  "function_index (fold (\<lambda>(fw, f). index_func fw f) c st) =
     fold (\<lambda>(fw, f). AList.update (full_name (code fw) f) (mk_func_data fw f)) c
       (function_index st)"
  by (induction c arbitrary: st) (auto simp: function_index_index_func)

lemma map_of_fold_update:
  "map_of (fold (\<lambda>(k, v). AList.update k v) kvs al) = map_of al ++ map_of (rev kvs)"
  by (induction kvs arbitrary: al)
     (auto simp: update_conv' map_add_upd_left fun_eq_iff map_add_def split: option.splits)

lemma function_index_build:
  "function_index (build_indices extract fws) =
     fold (\<lambda>(k, v). AList.update k v) (all_records extract fws) []"
proof -
  have "(\<lambda>(k, v). AList.update k v) \<circ> (\<lambda>(fw, f). (full_name (code fw) f, mk_func_data fw f))
      = (\<lambda>(fw :: 'a framework_info, f). AList.update (full_name (code fw) f) (mk_func_data fw f))"
    by (auto simp: fun_eq_iff)
  then show ?thesis
    by (simp add: build_indices_corpus function_index_fold all_records_def fold_map
        empty_index_def)
qed

section \<open>Duplicate qualified names\<close>

text \<open>
  Claim C1 says that on a collision of qualified names the build reports an error and
  keeps the first-seen entry. \<open>_build_indices\<close> has no error path and assigns
  \<open>self.function_index[func_full_name] = ...\<close> unconditionally. With the two
  documents of \<open>civ_dup\<close> the first record met under \<open>civ:contract-valid?\<close> is the one
  of \<open>a.scm\<close>, and the built index holds the one of \<open>b.scm\<close>.
\<close>

theorem function_index_keeps_first_counterexample:
  "map_of (all_records id [civ_dup]) ''civ:contract-valid?'' = Some (mk_func_data civ_dup first_def)
   \<and> map_of (function_index (build_indices id [civ_dup])) ''civ:contract-valid?''
       = Some (mk_func_data civ_dup second_def)
   \<and> mk_func_data civ_dup first_def \<noteq> mk_func_data civ_dup second_def"
  by (simp add: function_index_build all_records_def corpus_def civ_dup_def full_name_def
      mk_func_data_def first_def_def second_def_def)

text \<open>
  C1 as amended: the build reports nothing and the last record written under a
  qualified name wins. For every extractor and every list of frameworks, the built
  \<open>function_index\<close> maps each qualified name to the record that was inserted last
  under it (\<open>map_of\<close> of the reversed discovery order), and to nothing when no record
  has that name.
\<close>

theorem function_index_last_write_wins:
  "map_of (function_index (build_indices extract fws)) = map_of (rev (all_records extract fws))"
  by (simp add: function_index_build map_of_fold_update)

section \<open>Single-hop inference chains\<close>

lemma chain_loop_find:
  "chain_loop fi p t =
     (case find (\<lambda>(qn, fd). name fd = t) fi of
        None \<Rightarrow> []
      | Some (qn, fd) \<Rightarrow>
          if p \<in> set (cross_references fd)
          then [\<lparr>node = p, node_type = ''principle'', node_level = 1, attached = None\<rparr>,
                \<lparr>node = t, node_type = ''rule'', node_level = 2, attached = Some fd\<rparr>]
          else [])"
  by (induction fi) (auto split: option.splits)

text \<open>
  Claim C2 says that the chain is found if and only if some record named
  \<open>targetName\<close> lists the principle. The loop of \<open>build_inference_chain\<close> leaves at
  the first entry with that local name. In the index of \<open>civ_fw\<close> and \<open>cri_fw\<close> the
  entry \<open>cri:valid?\<close> has the local name \<open>valid?\<close> and lists
  \<open>nullum-crimen-sine-lege\<close>, but \<open>civ:valid?\<close> comes first and lists nothing: no
  chain is returned.
\<close>

theorem chain_some_record_counterexample:
  "chain (build_indices id [civ_fw, cri_fw]) ''nullum-crimen-sine-lege'' ''valid?'' = None
   \<and> (''cri:valid?'', mk_func_data cri_fw cri_valid)
        \<in> set (function_index (build_indices id [civ_fw, cri_fw]))
   \<and> name (mk_func_data cri_fw cri_valid) = ''valid?''
   \<and> ''nullum-crimen-sine-lege'' \<in> set (cross_references (mk_func_data cri_fw cri_valid))"
  by (simp add: chain_def build_inference_chain_def function_index_build all_records_def
      corpus_def civ_fw_def cri_fw_def civ_valid_def cri_valid_def full_name_def mk_func_data_def)

text \<open>
  C2 as amended: for every index and every pair of names, \<open>chain\<close> looks at the first
  entry (in index order) whose local name is the target. It returns the two-node chain
  \<open>[principle, target]\<close> exactly when that entry lists the principle among its
  cross-references, and otherwise the absent result; it has no error result, and no
  other entry (an indirect path, or a later entry of the same local name) is
  consulted.
\<close>

theorem chain_first_named_record:
  "chain idx p t =
     (case find (\<lambda>(qn, fd). name fd = t) (function_index idx) of
        None \<Rightarrow> None
      | Some (qn, fd) \<Rightarrow>
          if p \<in> set (cross_references fd)
          then Some [\<lparr>node = p, node_type = ''principle'', node_level = 1, attached = None\<rparr>,
                     \<lparr>node = t, node_type = ''rule'', node_level = 2, attached = Some fd\<rparr>]
          else None)"
  by (simp add: chain_def build_inference_chain_def chain_loop_find split: option.splits)

theorem chain_first_named_record_witness:
  "chain (build_indices id [lv1_fw, civ_contract_fw]) ''pacta-sunt-servanda'' ''contract-valid?'' =
     Some [\<lparr>node = ''pacta-sunt-servanda'', node_type = ''principle'', node_level = 1,
             attached = None\<rparr>,
           \<lparr>node = ''contract-valid?'', node_type = ''rule'', node_level = 2,
             attached = Some (mk_func_data civ_contract_fw contract_valid)\<rparr>]"
  using chain_first_named_record
    [of "build_indices id [lv1_fw, civ_contract_fw]" "''pacta-sunt-servanda''" "''contract-valid?''"]
  by (simp add: function_index_build all_records_def corpus_def lv1_fw_def civ_contract_fw_def
      pacta_def contract_valid_def full_name_def mk_func_data_def)

section \<open>The reverse index and the rules derived from a principle\<close>

lemma get_list_dd_append:
  "get_list (dd_append m r v) p = (if r = p then get_list m p @ [v] else get_list m p)"
  by (simp add: get_list_def dd_append_def)

lemma fold_domain_xref_index:
  "cross_references_index (fold (\<lambda>d s. s\<lparr>domain_index := g s d\<rparr>) ds st) =
     cross_references_index st"
  by (induction ds arbitrary: st) auto

lemma fold_xref_get_list:
  "get_list (cross_references_index
       (fold (\<lambda>r s. s\<lparr>cross_references_index := dd_append (cross_references_index s) r qn\<rparr>) rs st)) p
   = get_list (cross_references_index st) p @ replicate (count_list rs p) qn"
  by (induction rs arbitrary: st) (auto simp: get_list_dd_append replicate_append_same)

lemma xref_index_index_func:
  "get_list (cross_references_index (index_func fw f st)) p =
     get_list (cross_references_index st) p
       @ replicate (count_list (cross_references f) p) (full_name (code fw) f)"
  by (simp add: index_func_def Let_def fold_xref_get_list fold_domain_xref_index)

lemma xref_index_fold:
  "get_list (cross_references_index (fold (\<lambda>(fw, f). index_func fw f) c st)) p =
     get_list (cross_references_index st) p
       @ concat (map (\<lambda>(fw, f). replicate (count_list (cross_references f) p)
                                    (full_name (code fw) f)) c)"
  by (induction c arbitrary: st) (auto simp: xref_index_index_func)

lemma xref_index_build:
  "get_list (cross_references_index (build_indices extract fws)) p =
     concat (map (\<lambda>(fw, f). replicate (count_list (cross_references f) p)
                                (full_name (code fw) f)) (corpus extract fws))"
  by (simp add: build_indices_corpus xref_index_fold) (simp add: empty_index_def get_list_def)

lemma lookup_all_append:
  "lookup_all fi xs = Inr a \<Longrightarrow> lookup_all fi ys = Inr b \<Longrightarrow> lookup_all fi (xs @ ys) = Inr (a @ b)"
  by (induction xs arbitrary: a) (auto split: option.splits sum.splits)

lemma lookup_all_replicate:
  "map_of fi k = Some v \<Longrightarrow> lookup_all fi (replicate n k) = Inr (replicate n v)"
  by (induction n) auto

lemma lookup_all_concat:
  assumes "\<And>c. c \<in> set cs \<Longrightarrow> map_of fi (key c) = Some (val c)"
  shows "lookup_all fi (concat (map (\<lambda>c. replicate (cnt c) (key c)) cs)) =
           Inr (concat (map (\<lambda>c. replicate (cnt c) (val c)) cs))"
  using assms
proof (induction cs)
  case Nil
  then show ?case by simp
next
  case (Cons c cs)
  have "lookup_all fi (replicate (cnt c) (key c)) = Inr (replicate (cnt c) (val c))"
    using Cons.prems by (simp add: lookup_all_replicate)
  moreover have "lookup_all fi (concat (map (\<lambda>c. replicate (cnt c) (key c)) cs)) =
           Inr (concat (map (\<lambda>c. replicate (cnt c) (val c)) cs))"
    using Cons by simp
  ultimately show ?case by (simp add: lookup_all_append)
qed

lemma function_index_lookup_distinct:
  assumes "distinct (map fst (all_records extract fws))"
    and "(qn, fd) \<in> set (all_records extract fws)"
  shows "map_of (function_index (build_indices extract fws)) qn = Some fd"
proof -
  have "distinct (map fst (rev (all_records extract fws)))"
    using assms(1) by (simp add: rev_map [symmetric])
  moreover have "(qn, fd) \<in> set (rev (all_records extract fws))"
    using assms(2) by simp
  ultimately have "map_of (rev (all_records extract fws)) qn = Some fd"
    by (rule map_of_is_SomeI)
  then show ?thesis
    by (simp add: function_index_build map_of_fold_update)
qed

lemma set_concat_replicate:
  "set (concat (map (\<lambda>c. replicate (count_list (g c) p) (h c)) cs)) =
     h ` {c \<in> set cs. p \<in> set (g c)}"
  by (induction cs) (auto simp: count_list_0_iff)

text \<open>
  Claim C4 says that \<open>rulesDerivedFrom(P)\<close> returns no record without \<open>P\<close> among
  its cross-references. The reverse index stores qualified names, and the records are
  read back from \<open>function_index\<close>: with the two documents of \<open>civ_dup\<close> the name
  \<open>civ:contract-valid?\<close> enters the reverse index of \<open>pacta-sunt-servanda\<close> through
  the first definition, and the record returned for it is the second one, which has
  no cross-reference at all.
\<close>

theorem find_derived_rules_counterexample:
  "find_derived_rules (build_indices id [civ_dup]) ''pacta-sunt-servanda''
     = Inr [mk_func_data civ_dup second_def]
   \<and> ''pacta-sunt-servanda'' \<notin> set (cross_references (mk_func_data civ_dup second_def))"
  by (simp add: find_derived_rules_def xref_index_build function_index_build all_records_def
      corpus_def civ_dup_def first_def_def second_def_def full_name_def mk_func_data_def)

text \<open>
  C4 as amended: when the qualified names of the corpus are unique,
  \<open>rulesDerivedFrom(P)\<close> returns exactly the records whose \<open>crossReferences\<close> list
  contains \<open>P\<close>, in discovery order: walking the corpus in the order of the build,
  each record occurs once for every occurrence of \<open>P\<close> in its list, so every record
  that lists \<open>P\<close> is returned and no other record is; no \<open>KeyError\<close> is raised.
\<close>

theorem find_derived_rules_exact:
  assumes "distinct (map fst (all_records extract fws))"
  shows "find_derived_rules (build_indices extract fws) p =
           Inr (concat (map (\<lambda>(qn, fd). replicate (count_list (cross_references fd) p) fd)
                  (all_records extract fws)))
       \<and> set (concat (map (\<lambda>(qn, fd). replicate (count_list (cross_references fd) p) fd)
                  (all_records extract fws)))
           = {fd \<in> snd ` set (all_records extract fws). p \<in> set (cross_references fd)}"
proof
  let ?recs = "all_records extract fws"
  have names: "get_list (cross_references_index (build_indices extract fws)) p =
      concat (map (\<lambda>c. replicate (count_list (cross_references (snd c)) p) (fst c)) ?recs)"
    by (simp add: xref_index_build all_records_def comp_def case_prod_unfold mk_func_data_def)
  have "lookup_all (function_index (build_indices extract fws))
          (concat (map (\<lambda>c. replicate (count_list (cross_references (snd c)) p) (fst c)) ?recs))
      = Inr (concat (map (\<lambda>c. replicate (count_list (cross_references (snd c)) p) (snd c)) ?recs))"
    by (rule lookup_all_concat) (simp add: function_index_lookup_distinct [OF assms])
  then show "find_derived_rules (build_indices extract fws) p =
           Inr (concat (map (\<lambda>(qn, fd). replicate (count_list (cross_references fd) p) fd) ?recs))"
    by (simp add: find_derived_rules_def names case_prod_unfold)
  show "set (concat (map (\<lambda>(qn, fd). replicate (count_list (cross_references fd) p) fd) ?recs))
           = {fd \<in> snd ` set ?recs. p \<in> set (cross_references fd)}"
    using set_concat_replicate [of "\<lambda>c. cross_references (snd c)" p snd ?recs]
    by (auto simp: case_prod_unfold)
qed

theorem find_derived_rules_exact_witness:
  "distinct (map fst (all_records id [lv1_fw, civ_contract_fw]))
   \<and> find_derived_rules (build_indices id [lv1_fw, civ_contract_fw]) ''pacta-sunt-servanda''
       = Inr [mk_func_data civ_contract_fw contract_valid]"
proof -
  have d: "distinct (map fst (all_records id [lv1_fw, civ_contract_fw]))"
    by (simp add: all_records_def corpus_def lv1_fw_def civ_contract_fw_def
        pacta_def contract_valid_def full_name_def)
  show ?thesis
    using d find_derived_rules_exact [OF d, of "''pacta-sunt-servanda''"]
    by (simp add: all_records_def corpus_def lv1_fw_def civ_contract_fw_def
        pacta_def contract_valid_def full_name_def mk_func_data_def)
qed

section \<open>Principles applicable to a domain\<close>

lemma fold_domain_principle_index:
  "principle_index (fold (\<lambda>d s. s\<lparr>domain_index := g s d\<rparr>) ds st) = principle_index st"
  by (induction ds arbitrary: st) auto

lemma fold_xref_principle_index:
  "principle_index (fold (\<lambda>d s. s\<lparr>cross_references_index := g s d\<rparr>) ds st) =
     principle_index st"
  by (induction ds arbitrary: st) auto

lemma principle_index_index_func:
  "principle_index (index_func fw f st) =
     (if is_principle f \<or> level fw = 1
      then AList.update (name f) (mk_principle_data fw f) (principle_index st)
      else principle_index st)"
  by (simp add: index_func_def Let_def fold_domain_principle_index fold_xref_principle_index)

lemma principle_index_fold_distinct:
  "distinct (map fst (principle_index st)) \<Longrightarrow>
   distinct (map fst (principle_index (fold (\<lambda>(fw, f). index_func fw f) c st)))"
  by (induction c arbitrary: st) (auto simp: principle_index_index_func distinct_update)

lemma principle_index_build_distinct:
  "distinct (map fst (principle_index (build_indices extract fws)))"
  by (simp add: build_indices_corpus principle_index_fold_distinct empty_index_def)

lemma scan_domain_funcs_new:
  "pn \<notin> set (map pr_name acc) \<Longrightarrow>
   scan_domain_funcs fi pn pd fns acc =
     (if \<exists>fn \<in> set fns. case map_of fi fn of None \<Rightarrow> False
                                  | Some fd \<Rightarrow> pn \<in> set (cross_references fd)
      then acc @ [\<lparr>pr_name = pn, pr_framework = principle_framework pd,
                   pr_docstring = docstring pd, pr_file = file_name pd\<rparr>]
      else acc)"
  by (induction fns) (auto split: option.splits)

lemma fold_scan_names:
  assumes "distinct (map fst pis)" and "set (map pr_name acc) \<inter> set (map fst pis) = {}"
  shows "map pr_name
           (fold (\<lambda>(pn, pd) principles.
                    scan_domain_funcs (function_index idx) pn pd
                      (get_list (domain_index idx) d) principles) pis acc)
         = map pr_name acc @ filter (referenced_in_domain idx d) (map fst pis)"
  using assms
proof (induction pis arbitrary: acc)
  case Nil
  then show ?case by simp
next
  case (Cons a pis)
  obtain pn pd where a: "a = (pn, pd)" by (cases a)
  let ?acc' = "scan_domain_funcs (function_index idx) pn pd (get_list (domain_index idx) d) acc"
  have new: "pn \<notin> set (map pr_name acc)"
    using Cons.prems(2) a by auto
  have acc': "map pr_name ?acc' =
      map pr_name acc @ (if referenced_in_domain idx d pn then [pn] else [])"
    using new by (simp add: scan_domain_funcs_new referenced_in_domain_def)
  have disj: "set (map pr_name ?acc') \<inter> set (map fst pis) = {}"
    using Cons.prems a by (auto simp: acc' split: if_splits)
  have dist: "distinct (map fst pis)"
    using Cons.prems(1) by simp
  have "map pr_name
           (fold (\<lambda>(pn, pd) principles.
                    scan_domain_funcs (function_index idx) pn pd
                      (get_list (domain_index idx) d) principles) pis ?acc')
         = map pr_name ?acc' @ filter (referenced_in_domain idx d) (map fst pis)"
    by (rule Cons.IH [OF dist disj])
  then show ?case
    by (simp add: a acc')
qed

text \<open>
  Claim C7. For every corpus and every domain, the names returned by
  \<open>find_principles_by_domain\<close> are the keys of the principle index, in the order of
  that index (the order in which each principle name was first seen), that are
  referenced by at least one record indexed under the domain: a principle is returned
  as soon as one record of the domain lists it, a principle that no record of the
  domain lists is not returned, and no name is returned twice.
\<close>

theorem find_principles_by_domain_names:
  "map pr_name (find_principles_by_domain (build_indices extract fws) d) =
     filter (referenced_in_domain (build_indices extract fws) d)
       (map fst (principle_index (build_indices extract fws)))
   \<and> distinct (map pr_name (find_principles_by_domain (build_indices extract fws) d))"
proof -
  let ?idx = "build_indices extract fws"
  have dist: "distinct (map fst (principle_index ?idx))"
    by (rule principle_index_build_distinct)
  have eq: "map pr_name (find_principles_by_domain ?idx d) =
     filter (referenced_in_domain ?idx d) (map fst (principle_index ?idx))"
    unfolding find_principles_by_domain_def
    using fold_scan_names [OF dist, of "[]" ?idx d] by simp
  moreover have "distinct (filter (referenced_in_domain ?idx d) (map fst (principle_index ?idx)))"
    using dist by (rule distinct_filter)
  ultimately show ?thesis by simp
qed


theorem find_principles_by_domain_names_witness:
  "map pr_name (find_principles_by_domain (build_indices id [lv1_fw, civ_contract_fw]) ''contract'')
     = [''pacta-sunt-servanda'']"
  using find_principles_by_domain_names [of id "[lv1_fw, civ_contract_fw]" "''contract''"]
  by (simp add: referenced_in_domain_def build_indices_def index_framework_def index_func_def
      empty_index_def dd_append_def get_list_def lv1_fw_def civ_contract_fw_def pacta_def
      contract_valid_def full_name_def mk_func_data_def mk_principle_data_def Let_def)

section \<open>Keyword search\<close>

lemma starts_with_iff: "starts_with s q \<longleftrightarrow> (\<exists>ss. s = q @ ss)"
  by (induction s q rule: starts_with.induct) auto

lemma str_in_iff: "str_in q s \<longleftrightarrow> (\<exists>ps ss. s = ps @ q @ ss)"
proof (induction s)
  case Nil
  then show ?case by auto
next
  case (Cons c cs)
  show ?case
  proof
    assume "str_in q (c # cs)"
    then consider "starts_with (c # cs) q" | "str_in q cs" by auto
    then show "\<exists>ps ss. c # cs = ps @ q @ ss"
    proof cases
      case 1
      then obtain ss where "c # cs = q @ ss" by (auto simp: starts_with_iff)
      then have "c # cs = [] @ q @ ss" by simp
      then show ?thesis by blast
    next
      case 2
      then obtain ps ss where "cs = ps @ q @ ss" using Cons.IH by auto
      then have "c # cs = (c # ps) @ q @ ss" by simp
      then show ?thesis by blast
    qed
  next
    assume "\<exists>ps ss. c # cs = ps @ q @ ss"
    then obtain ps ss where eq: "c # cs = ps @ q @ ss" by auto
    show "str_in q (c # cs)"
    proof (cases ps)
      case Nil
      then have "starts_with (c # cs) q" using eq by (auto simp: starts_with_iff)
      then show ?thesis by simp
    next
      case (Cons p ps')
      then have "cs = ps' @ q @ ss" using eq by simp
      then have "str_in q cs" using Cons.IH by blast
      then show ?thesis by simp
    qed
  qed
qed

lemma str_in_refl: "str_in q q"
proof -
  have "q = [] @ q @ []" by simp
  then show ?thesis unfolding str_in_iff by blast
qed

lemma match_step_acc: "match_step lower ql fd acc = acc @ match_step lower ql fd []"
  by (simp add: match_step_def)

lemma search_loop_hits:
  assumes "\<forall>(qn, fd) \<in> set fi. \<exists>fw. frameworks_get fws (framework fd) = Inr fw"
  shows "search_loop lower fws ql domain fi acc =
           Inr (acc @ concat (map (\<lambda>fd. match_step lower ql fd [])
                           (filter (candidate fws domain) (map snd fi))))"
  using assms
proof (induction fi arbitrary: acc)
  case Nil
  then show ?case by simp
next
  case (Cons a fi)
  obtain qn fd where a: "a = (qn, fd)" by (cases a)
  obtain fw where fw: "frameworks_get fws (framework fd) = Inr fw"
    using Cons.prems a by auto
  have skip: "domain_skip fws domain fd = Inr (\<not> candidate fws domain fd)"
    by (auto simp: domain_skip_def candidate_def declares_domain_def fw split: option.splits)
  have rest: "\<forall>(qn, fd) \<in> set fi. \<exists>fw. frameworks_get fws (framework fd) = Inr fw"
    using Cons.prems by simp
  show ?case
  proof (cases "candidate fws domain fd")
    case True
    then show ?thesis
      using Cons.IH [OF rest, of "match_step lower ql fd acc"] match_step_acc [of lower ql fd acc]
      by (simp add: a skip)
  next
    case False
    then show ?thesis
      using Cons.IH [OF rest, of acc] by (simp add: a skip)
  qed
qed

lemma insort_key_skip:
  "\<forall>y \<in> set ys. f y < f x \<Longrightarrow> insort_key f x (ys @ zs) = ys @ insort_key f x zs"
  by (induction ys) auto

lemma sort_key_three:
  fixes f :: "'a \<Rightarrow> nat"
  assumes "\<forall>x \<in> set xs. f x < 3"
  shows "sort_key f xs =
           filter (\<lambda>x. f x = 0) xs @ filter (\<lambda>x. f x = 1) xs @ filter (\<lambda>x. f x = 2) xs"
  using assms
proof (induction xs)
  case Nil
  then show ?case by simp
next
  case (Cons x xs)
  let ?A = "filter (\<lambda>x. f x = 0) xs" and ?B = "filter (\<lambda>x. f x = 1) xs"
    and ?C = "filter (\<lambda>x. f x = 2) xs"
  have IH: "sort_key f xs = ?A @ ?B @ ?C" using Cons by simp
  have "f x < 3" using Cons.prems by simp
  then consider "f x = 0" | "f x = 1" | "f x = 2" by linarith
  then show ?case
  proof cases
    case 1
    have "insort_key f x (?A @ ?B @ ?C) = x # ?A @ ?B @ ?C"
      by (rule insort_is_Cons) (simp add: 1)
    then show ?thesis by (simp add: IH 1)
  next
    case 2
    have "insort_key f x (?A @ (?B @ ?C)) = ?A @ insort_key f x (?B @ ?C)"
      by (rule insort_key_skip) (simp add: 2)
    moreover have "insort_key f x (?B @ ?C) = x # ?B @ ?C"
      by (rule insort_is_Cons) (auto simp: 2)
    ultimately show ?thesis by (simp add: IH 2)
  next
    case 3
    have "insort_key f x ((?A @ ?B) @ ?C) = (?A @ ?B) @ insort_key f x ?C"
      by (rule insort_key_skip) (auto simp: 3)
    moreover have "insort_key f x ?C = x # ?C"
      by (rule insort_is_Cons) (simp add: 3)
    ultimately show ?thesis by (simp add: IH 3)
  qed
qed

lemma relevance_with_relevance [simp]: "relevance (with_relevance r fd) = r"
  by (simp add: with_relevance_def)

lemma match_step_keys:
  "\<forall>x \<in> set (match_step lower (lower q) fd []). relevance_order (relevance x) < 3"
  by (simp add: match_step_def relevance_order_def)

lemma match_step_exact:
  "filter (\<lambda>x. relevance_order (relevance x) = 0) (match_step lower (lower q) fd []) =
     (if exact_match lower q fd then [with_relevance ''exact'' fd] else [])"
  by (simp add: match_step_def relevance_order_def exact_match_def str_in_refl)

lemma match_step_partial:
  "filter (\<lambda>x. relevance_order (relevance x) = Suc 0) (match_step lower (lower q) fd []) =
     (if partial_match lower q fd then [with_relevance ''partial'' fd] else [])"
  by (simp add: match_step_def relevance_order_def partial_match_def)

lemma match_step_description:
  "filter (\<lambda>x. relevance_order (relevance x) = 2) (match_step lower (lower q) fd []) =
     (if doc_only_match lower q fd then [with_relevance ''description'' fd] else [])"
  by (simp add: match_step_def relevance_order_def doc_only_match_def)

lemma hits_keys:
  "\<forall>x \<in> set (concat (map (\<lambda>fd. match_step lower (lower q) fd []) cs)).
     relevance_order (relevance x) < 3"
  using match_step_keys by auto

lemma hits_exact:
  "filter (\<lambda>x. relevance_order (relevance x) = 0)
     (concat (map (\<lambda>fd. match_step lower (lower q) fd []) cs))
   = map (with_relevance ''exact'') (filter (exact_match lower q) cs)"
  by (induction cs) (simp_all add: match_step_exact)

lemma hits_partial:
  "filter (\<lambda>x. relevance_order (relevance x) = Suc 0)
     (concat (map (\<lambda>fd. match_step lower (lower q) fd []) cs))
   = map (with_relevance ''partial'') (filter (partial_match lower q) cs)"
  by (induction cs) (simp_all add: match_step_partial)

lemma hits_description:
  "filter (\<lambda>x. relevance_order (relevance x) = 2)
     (concat (map (\<lambda>fd. match_step lower (lower q) fd []) cs))
   = map (with_relevance ''description'') (filter (doc_only_match lower q) cs)"
  by (induction cs) (simp_all add: match_step_description)

lemma set_update_subset: "set (AList.update k v al) \<subseteq> insert (k, v) (set al)"
  by (induction al) auto

lemma set_fold_update:
  "set (fold (\<lambda>(k, v). AList.update k v) kvs al) \<subseteq> set kvs \<union> set al"
proof (induction kvs arbitrary: al)
  case Nil
  then show ?case by simp
next
  case (Cons a kvs)
  obtain k v where a: "a = (k, v)" by (cases a)
  have "set (fold (\<lambda>(k, v). AList.update k v) kvs (AList.update k v al))
          \<subseteq> set kvs \<union> set (AList.update k v al)"
    by (rule Cons.IH)
  also have "\<dots> \<subseteq> set kvs \<union> insert (k, v) (set al)"
    using set_update_subset [of k v al] by auto
  finally show ?case by (auto simp: a)
qed

lemma function_index_entries:
  "set (function_index (build_indices extract fws)) \<subseteq> set (all_records extract fws)"
  using set_fold_update [of "all_records extract fws" "[]"]
  by (simp add: function_index_build)

lemma all_records_framework:
  assumes "(qn, fd) \<in> set (all_records extract fws)"
  shows "\<exists>fw. frameworks_get fws (framework fd) = Inr fw"
proof -
  obtain fw f where "fw \<in> set fws" and "fd = mk_func_data fw f"
    using assms by (auto simp: all_records_def corpus_def)
  then have "\<exists>x \<in> set fws. code x = framework fd"
    by (auto simp: mk_func_data_def)
  then have "find (\<lambda>x. code x = framework fd) fws \<noteq> None"
    by (auto simp: find_None_iff)
  then show ?thesis
    by (auto simp: frameworks_get_def)
qed

lemma hit_record_with_relevance [simp]: "hit_record (with_relevance r fd) = fd"
  by (simp add: hit_record_def with_relevance_def)

text \<open>
  Claim C6 says that a given domain filter restricts the candidates to the records whose
  framework declares that domain. \<open>search_functions\<close> tests \<open>if domain:\<close>, so
  the empty string is no filter at all: in the end-to-end corpus no framework declares
  the domain \<open>''\<close>, and the search for \<open>contract\<close> under that filter still
  returns \<open>civ:contract-valid?\<close>.
\<close>

theorem search_functions_empty_domain_counterexample:
  "search_functions ascii_lower [lv1_fw, civ_contract_fw] (build_indices id [lv1_fw, civ_contract_fw])
      ''contract'' (Some '''')
     = Inr [with_relevance ''partial'' (mk_func_data civ_contract_fw contract_valid)]
   \<and> \<not> declares_domain [lv1_fw, civ_contract_fw]
          (mk_func_data civ_contract_fw contract_valid) ''''"
  by (simp add: search_functions_def domain_skip_def match_step_def declares_domain_def
      frameworks_get_def function_index_build all_records_def corpus_def lv1_fw_def
      civ_contract_fw_def pacta_def contract_valid_def full_name_def mk_func_data_def
      ascii_lower_def lower_char_def)

text \<open>
  C6 as amended: for every query string and optional domain filter, the search over a
  built index raises nothing and returns, of the candidate records in index order (all
  records when the filter is absent or the empty string, otherwise the records whose
  framework declares the domain), first those whose local name equals the query up to
  case, then those whose local name contains the query without being equal to it, then
  those that contain it only in their documentation; each group keeps the index order.
  A candidate is returned if and only if the lower-cased query is a substring of its
  lower-cased local name or documentation.
\<close>

theorem search_functions_ranked:
  "\<exists>rs. search_functions lower fws (build_indices extract fws) q domain = Inr rs
     \<and> rs = map (with_relevance ''exact'')
              (filter (exact_match lower q) (candidates fws (build_indices extract fws) domain))
          @ map (with_relevance ''partial'')
              (filter (partial_match lower q) (candidates fws (build_indices extract fws) domain))
          @ map (with_relevance ''description'')
              (filter (doc_only_match lower q) (candidates fws (build_indices extract fws) domain))
     \<and> hit_record ` set rs =
           {fd \<in> set (candidates fws (build_indices extract fws) domain).
              str_in (lower q) (lower (name fd)) \<or> str_in (lower q) (lower (docstring fd))}"
proof -
  let ?idx = "build_indices extract fws"
  let ?cs = "candidates fws ?idx domain"
  let ?hits = "concat (map (\<lambda>fd. match_step lower (lower q) fd []) ?cs)"
  let ?rs = "map (with_relevance ''exact'') (filter (exact_match lower q) ?cs)
        @ map (with_relevance ''partial'') (filter (partial_match lower q) ?cs)
        @ map (with_relevance ''description'') (filter (doc_only_match lower q) ?cs)"
  have known: "\<forall>(qn, fd) \<in> set (function_index ?idx).
                 \<exists>fw. frameworks_get fws (framework fd) = Inr fw"
  proof -
    have "\<exists>fw. frameworks_get fws (framework fd) = Inr fw"
      if "(qn, fd) \<in> set (function_index ?idx)" for qn fd
    proof -
      from that have "(qn, fd) \<in> set (all_records extract fws)"
        using function_index_entries by blast
      then show ?thesis by (rule all_records_framework)
    qed
    then show ?thesis by auto
  qed
  have loop: "search_loop lower fws (lower q) domain (function_index ?idx) [] = Inr ?hits"
    using search_loop_hits [OF known, of lower "lower q" domain "[]"]
    by (simp add: candidates_def)
  have "sort_key (\<lambda>x. relevance_order (relevance x)) ?hits =
          filter (\<lambda>x. relevance_order (relevance x) = 0) ?hits
        @ filter (\<lambda>x. relevance_order (relevance x) = 1) ?hits
        @ filter (\<lambda>x. relevance_order (relevance x) = 2) ?hits"
    by (rule sort_key_three) (rule hits_keys)
  then have "sort_key (\<lambda>x. relevance_order (relevance x)) ?hits = ?rs"
    by (simp add: hits_exact hits_partial hits_description)
  then have res: "search_functions lower fws ?idx q domain = Inr ?rs"
    by (simp add: search_functions_def loop)
  have "hit_record ` set ?rs =
          {fd \<in> set ?cs. exact_match lower q fd \<or> partial_match lower q fd \<or> doc_only_match lower q fd}"
    by (auto simp: image_Un image_image)
  also have "\<dots> = {fd \<in> set ?cs.
              str_in (lower q) (lower (name fd)) \<or> str_in (lower q) (lower (docstring fd))}"
    by (auto simp: exact_match_def partial_match_def doc_only_match_def str_in_refl)
  finally show ?thesis
    using res by blast
qed

theorem search_functions_ranked_witness:
  "search_functions ascii_lower [civ_search_fw] (build_indices id [civ_search_fw]) ''contract'' None =
     Inr [with_relevance ''exact'' (mk_func_data civ_search_fw contract_rule),
          with_relevance ''partial'' (mk_func_data civ_search_fw contract_valid),
          with_relevance ''description'' (mk_func_data civ_search_fw offer_rule)]"
  using search_functions_ranked [of ascii_lower "[civ_search_fw]" id "''contract''" None]
  by (simp add: candidates_def candidate_def exact_match_def partial_match_def
      doc_only_match_def function_index_build all_records_def corpus_def civ_search_fw_def
      offer_rule_def contract_rule_def contract_valid_def full_name_def mk_func_data_def
      ascii_lower_def lower_char_def)

section \<open>Confidence\<close>




lemma confidence_truthy_types:
  "nodes \<noteq> [] \<Longrightarrow> ts \<noteq> [] \<Longrightarrow>
   confidence ops nodes (Some ts) =
     fround ops (fold (\<lambda>inf_type c. fmul ops c (factors_get ops inf_type)) ts (flit ops 1.0)) 4"
  by (simp add: confidence_def Let_def)







text \<open>
  Claim C9 says that every explicitly supplied list of inference types is applied factor
  by factor, whatever the chain. An explicitly supplied empty list fails the test
  \<open>if inference_types:\<close>, so the default branch runs: for the two-node chain the result
  is \<open>0.95\<close>, where the product of no factors would give \<open>1.0\<close>. The values are computed
  in exact arithmetic; floating point gives the same two.
\<close>

theorem confidence_empty_types_counterexample:
  "[pacta_node, contract_valid_node] \<noteq> []
   \<and> confidence exact_ops [pacta_node, contract_valid_node] (Some []) = 0.95
   \<and> fround exact_ops
        (fold (\<lambda>inf_type c. fmul exact_ops c (factors_get exact_ops inf_type)) []
           (flit exact_ops 1.0)) 4 = 1"
  by (simp add: confidence_def exact_ops_def py_round_def round_half_even_def Let_def)

text \<open>
  C9 as amended: in every arithmetic, for every non-empty chain and every non-empty list
  of inference types, the confidence is the product of the factors of the supplied types
  (\<open>0.95\<close> for an unknown type), multiplied one after the other onto \<open>1.0\<close>, one factor
  per supplied type, and rounded to four decimal places; the chain does not enter the
  result, so every other non-empty chain gets the same value, also when the number of
  types differs from the number of edges.
\<close>

theorem confidence_supplied_types:
  assumes "nodes \<noteq> []" and "ts \<noteq> []"
  shows "confidence ops nodes (Some ts) =
           fround ops (fold (\<lambda>inf_type c. fmul ops c (factors_get ops inf_type)) ts
                         (flit ops 1.0)) 4
       \<and> (\<forall>nodes' :: 'a list. nodes' \<noteq> [] \<longrightarrow>
             confidence ops nodes' (Some ts) = confidence ops nodes (Some ts))"
  using assms by (simp add: confidence_truthy_types)

theorem confidence_supplied_types_witness:
  "[pacta_node, contract_valid_node] \<noteq> []
   \<and> [''inductive'', ''abductive'', ''precedent''] \<noteq> []
   \<and> confidence exact_ops [pacta_node, contract_valid_node]
        (Some [''inductive'', ''abductive'', ''precedent'']) = 0.532
   \<and> confidence exact_ops [pacta_node]
        (Some [''inductive'', ''abductive'', ''precedent'']) = 0.532"
proof -
  have n: "[pacta_node, contract_valid_node] \<noteq> []" by simp
  have t: "[''inductive'', ''abductive'', ''precedent''] \<noteq> []" by simp
  have p: "fround exact_ops
             (fold (\<lambda>inf_type c. fmul exact_ops c (factors_get exact_ops inf_type))
                [''inductive'', ''abductive'', ''precedent''] (flit exact_ops 1.0)) 4
             = 0.532"
    by (simp add: exact_ops_def py_round_def round_half_even_def Let_def factors_get_def)
  note th = confidence_supplied_types [OF n t, where ops = exact_ops]
  have "confidence exact_ops [pacta_node, contract_valid_node]
          (Some [''inductive'', ''abductive'', ''precedent''])
        = fround exact_ops
             (fold (\<lambda>inf_type c. fmul exact_ops c (factors_get exact_ops inf_type))
                [''inductive'', ''abductive'', ''precedent''] (flit exact_ops 1.0)) 4"
    using th by (rule conjunct1)
  also have "\<dots> = 0.532" by (rule p)
  finally have a: "confidence exact_ops [pacta_node, contract_valid_node]
          (Some [''inductive'', ''abductive'', ''precedent'']) = 0.532" .
  have "[pacta_node] \<noteq> [] \<longrightarrow>
          confidence exact_ops [pacta_node] (Some [''inductive'', ''abductive'', ''precedent''])
          = confidence exact_ops [pacta_node, contract_valid_node]
              (Some [''inductive'', ''abductive'', ''precedent''])"
    using th by blast
  then have b: "confidence exact_ops [pacta_node]
                  (Some [''inductive'', ''abductive'', ''precedent'']) = 0.532"
    using a by simp
  show ?thesis
    using n t a b by blast
qed

section \<open>Simple paths in a graph with cycles\<close>

lemma is_path_snoc:
  "path \<noteq> [] \<Longrightarrow> is_path adj path \<Longrightarrow> c \<in> set (adj (last path)) \<Longrightarrow> is_path adj (path @ [c])"
  by (induction adj path rule: is_path.induct) auto

lemma explore_sound:
  assumes "path \<noteq> []" and "distinct path" and "is_path adj path"
    and "set cs \<subseteq> set (adj (last path))"
    and "p \<in> set (explore adj target b path cs)"
  shows "\<exists>suffix. p = path @ suffix \<and> suffix \<noteq> [] \<and> distinct p \<and> is_path adj p
           \<and> last p = target \<and> length suffix \<le> Suc b"
  using assms
proof (induction adj target b path cs rule: explore.induct)
  case (1 adj target budget path)
  then show ?case by simp
next
  case (2 adj target budget path child children)
  have rest: "set children \<subseteq> set (adj (last path))" using "2.prems"(4) by simp
  have edge: "child \<in> set (adj (last path))" using "2.prems"(4) by simp
  show ?case
  proof (cases "child \<in> set path")
    case True
    then have "p \<in> set (explore adj target budget path children)"
      using "2.prems"(5) by simp
    then show ?thesis
      using "2.IH"(1) [OF True "2.prems"(1) "2.prems"(2) "2.prems"(3) rest] by blast
  next
    case False
    have path': "is_path adj (path @ [child])"
      using "2.prems"(1) "2.prems"(3) edge by (rule is_path_snoc)
    have dist': "distinct (path @ [child])"
      using "2.prems"(2) False by simp
    from "2.prems"(5) False
    consider (hit) "child = target" "p = path @ [child]"
      | (deeper) b' where "child \<noteq> target" "budget = Suc b'"
          "p \<in> set (explore adj target b' (path @ [child]) (adj child))"
      | (later) "p \<in> set (explore adj target budget path children)"
      by (auto split: if_splits nat.splits)
    then show ?thesis
    proof cases
      case hit
      then show ?thesis using path' dist' by auto
    next
      case deeper
      have "\<exists>suffix. p = (path @ [child]) @ suffix \<and> suffix \<noteq> [] \<and> distinct p
              \<and> is_path adj p \<and> last p = target \<and> length suffix \<le> Suc b'"
        using "2.IH"(2) [OF False deeper(1) deeper(2) _ dist' path' _ deeper(3)] by simp
      then obtain suffix where s: "p = (path @ [child]) @ suffix" "suffix \<noteq> []" "distinct p"
          "is_path adj p" "last p = target" "length suffix \<le> Suc b'"
        by blast
      have "p = path @ (child # suffix)" using s(1) by simp
      moreover have "length (child # suffix) \<le> Suc budget" using s(6) deeper(2) by simp
      ultimately show ?thesis using s by blast
    next
      case later
      then show ?thesis
        using "2.IH"(3) [OF False "2.prems"(1) "2.prems"(2) "2.prems"(3) rest] by blast
    qed
  qed
qed

lemma nx_all_simple_paths_sound:
  assumes "nx_all_simple_paths g source target cutoff = Inr paths" and "ids \<in> set paths"
  shows "ids \<noteq> [] \<and> hd ids = source \<and> last ids = target \<and> distinct ids
         \<and> is_path (successors g) ids \<and> int (length ids) - 1 \<le> cutoff"
proof (cases "source = target")
  case True
  then have "ids = [source]" and "0 \<le> cutoff"
    using assms by (auto simp: nx_all_simple_paths_def split: if_splits)
  then show ?thesis using True by simp
next
  case False
  then have pos: "0 < cutoff"
    and mem: "ids \<in> set (explore (successors g) target (nat cutoff - 1) [source]
                          (successors g source))"
    using assms by (auto simp: nx_all_simple_paths_def split: if_splits)
  have "\<exists>suffix. ids = [source] @ suffix \<and> suffix \<noteq> [] \<and> distinct ids
          \<and> is_path (successors g) ids \<and> last ids = target
          \<and> length suffix \<le> Suc (nat cutoff - 1)"
    by (rule explore_sound [OF _ _ _ _ mem]) simp_all
  then obtain suffix where s: "ids = [source] @ suffix" "suffix \<noteq> []" "distinct ids"
      "is_path (successors g) ids" "last ids = target" "length suffix \<le> Suc (nat cutoff - 1)"
    by blast
  have "int (length ids) - 1 = int (length suffix)" using s(1) by simp
  also have "\<dots> \<le> cutoff" using s(6) pos by linarith
  finally show ?thesis using s by simp
qed

lemma find_all_paths_cycle:
  "find_all_paths nx_all_simple_paths cycle_api ''A'' ''D'' 3 = Inr [[PStr ''A'', PStr ''D'']]"
  by (simp add: find_all_paths_def nx_all_simple_paths_def cycle_api_def cycle_graph_def
      py_not_def truthy_def node_label_def Let_def eval_nat_numeral)

text \<open>
  Claim C8, against the model of \<open>nx.all_simple_paths\<close>. \<open>find_all_paths\<close> is a total
  function: the enumeration recurses on the remaining edge budget and on the list of
  children, so it returns on every graph, cyclic or not, and its only error is a node
  missing from the graph. Every path it returns is the list of labels of a path of the
  graph from the start node to the end node that repeats no node and has at most
  \<open>max_length\<close> edges. On the graph \<open>A\<rightarrow>B\<close>, \<open>B\<rightarrow>C\<close>, \<open>C\<rightarrow>A\<close>, \<open>A\<rightarrow>D\<close> the
  paths from \<open>A\<close> to \<open>D\<close> of length at most 3 are exactly \<open>[[A, D]]\<close>.
\<close>

theorem find_all_paths_simple:
  "(find_all_paths nx_all_simple_paths api start end_name max_length = Inl NxNodeNotFound
      \<or> (\<exists>result. find_all_paths nx_all_simple_paths api start end_name max_length = Inr result))
   \<and> (graph api = Some g
        \<and> find_all_paths nx_all_simple_paths api start end_name max_length = Inr result
        \<and> p \<in> set result \<longrightarrow>
        (\<exists>ids. p = map (node_label g) ids \<and> ids \<noteq> []
           \<and> node_index api start = Some (hd ids) \<and> node_index api end_name = Some (last ids)
           \<and> distinct ids \<and> is_path (successors g) ids \<and> int (length ids) - 1 \<le> max_length))
   \<and> find_all_paths nx_all_simple_paths cycle_api ''A'' ''D'' 3 = Inr [[PStr ''A'', PStr ''D'']]"
proof (intro conjI impI)
  show "find_all_paths nx_all_simple_paths api start end_name max_length = Inl NxNodeNotFound
      \<or> (\<exists>result. find_all_paths nx_all_simple_paths api start end_name max_length = Inr result)"
    by (auto simp: find_all_paths_def nx_all_simple_paths_def Let_def split: option.splits)
next
  assume a: "graph api = Some g
        \<and> find_all_paths nx_all_simple_paths api start end_name max_length = Inr result
        \<and> p \<in> set result"
  then have ne: "result \<noteq> []" by auto
  have truthy: "\<not> py_not (node_index api start)" "\<not> py_not (node_index api end_name)"
    using a ne by (auto simp: find_all_paths_def Let_def split: if_splits)
  then obtain s e where se: "node_index api start = Some s" "node_index api end_name = Some e"
    by (auto simp: py_not_def split: option.splits)
  obtain paths where paths: "nx_all_simple_paths g s e max_length = Inr paths"
      and res: "result = map (map (node_label g)) paths"
    using a truthy se
    by (auto simp: find_all_paths_def Let_def split: sum.splits nx_error.splits)
  then obtain ids where ids: "ids \<in> set paths" "p = map (node_label g) ids"
    using a by auto
  show "\<exists>ids. p = map (node_label g) ids \<and> ids \<noteq> []
           \<and> node_index api start = Some (hd ids) \<and> node_index api end_name = Some (last ids)
           \<and> distinct ids \<and> is_path (successors g) ids \<and> int (length ids) - 1 \<le> max_length"
    using nx_all_simple_paths_sound [OF paths ids(1)] ids(2) se by auto
next
  show "find_all_paths nx_all_simple_paths cycle_api ''A'' ''D'' 3 = Inr [[PStr ''A'', PStr ''D'']]"
    by (rule find_all_paths_cycle)
qed

theorem find_all_paths_simple_witness:
  "graph cycle_api = Some cycle_graph
   \<and> find_all_paths nx_all_simple_paths cycle_api ''A'' ''D'' 3 = Inr [[PStr ''A'', PStr ''D'']]
   \<and> [PStr ''A'', PStr ''D''] \<in> set [[PStr ''A'', PStr ''D'']]
   \<and> (\<exists>ids. [PStr ''A'', PStr ''D''] = map (node_label cycle_graph) ids \<and> ids \<noteq> []
          \<and> node_index cycle_api ''A'' = Some (hd ids)
          \<and> node_index cycle_api ''D'' = Some (last ids)
          \<and> distinct ids \<and> is_path (successors cycle_graph) ids \<and> int (length ids) - 1 \<le> 3)"
proof -
  have g: "graph cycle_api = Some cycle_graph" by (simp add: cycle_api_def)
  have m: "[PStr ''A'', PStr ''D''] \<in> set [[PStr ''A'', PStr ''D'']]" by simp
  note th = find_all_paths_simple [of cycle_api "''A''" "''D''" 3 cycle_graph
      "[[PStr ''A'', PStr ''D'']]" "[PStr ''A'', PStr ''D'']"]
  show ?thesis
    using th g m by blast
qed
section \<open>Falsy node identifiers\<close>

text \<open>
  Claim C10. \<open>find_path\<close> and \<open>find_all_paths\<close> test \<open>not start_id or not end_id\<close>:
  whenever the lookup of the start or of the end name in \<open>node_index\<close> gives a falsy
  value (no entry, the identifier \<open>0\<close>, the empty string), \<open>find_path\<close> returns \<open>None\<close>
  and \<open>find_all_paths\<close> the empty list, whatever the graph and the library functions
  would answer. In \<open>zero_api\<close> the node \<open>root\<close> has the identifier \<open>0\<close> and the edge
  \<open>0\<rightarrow>1\<close> leads to \<open>leaf\<close>; even with library functions that answer with the path
  \<open>[0, 1]\<close>, no path is reported.
\<close>

theorem falsy_node_id_no_path:
  assumes "py_not (node_index api start) \<or> py_not (node_index api end_name)"
  shows "find_path shortest_path api start end_name = Inr None
       \<and> find_all_paths all_simple_paths api start end_name max_length = Inr []
       \<and> py_not (Some (PInt 0)) \<and> py_not (Some (PStr ''''))"
  using assms
  by (auto simp: find_path_def find_all_paths_def Let_def py_not_def truthy_def
      split: option.splits)

theorem falsy_node_id_no_path_witness:
  "node_index zero_api ''root'' = Some (PInt 0)
   \<and> node_index zero_api ''leaf'' = Some (PInt 1)
   \<and> PInt 0 \<in> set (graph_nodes zero_graph)
   \<and> is_path (successors zero_graph) [PInt 0, PInt 1]
   \<and> find_path (\<lambda>g s t. Inr [s, t]) zero_api ''root'' ''leaf'' = Inr None
   \<and> find_all_paths (\<lambda>g s t cutoff. Inr [[s, t]]) zero_api ''root'' ''leaf'' 5 = Inr []"
proof -
  have f: "py_not (node_index zero_api ''root'') \<or> py_not (node_index zero_api ''leaf'')"
    by (simp add: zero_api_def py_not_def truthy_def)
  show ?thesis
    using falsy_node_id_no_path
      [OF f, of "\<lambda>g s t. Inr [s, t]" "\<lambda>g s t cutoff. Inr [[s, t]]" 5]
    by (simp add: zero_api_def zero_graph_def)
qed

section \<open>Failures during extraction\<close>

lemma mk_func_data_files: "mk_func_data (fw\<lparr>files := fs\<rparr>) f = mk_func_data fw f"
  by (simp add: mk_func_data_def)

lemma mk_principle_data_files:
  "mk_principle_data (fw\<lparr>files := fs\<rparr>) f = mk_principle_data fw f"
  by (simp add: mk_principle_data_def)

lemma index_func_files: "index_func (fw\<lparr>files := fs\<rparr>) = index_func fw"
  by (intro ext) (simp add: index_func_def Let_def mk_func_data_files mk_principle_data_files)

lemma index_framework_skip:
  assumes "extract bad = []"
  shows "index_framework extract (fw\<lparr>files := fs1 @ [bad] @ fs2\<rparr>) =
         index_framework extract (fw\<lparr>files := fs1 @ fs2\<rparr>)"
  using assms by (intro ext) (simp add: index_framework_def index_func_files)

lemma build_indices_skip:
  assumes "extract bad = []"
  shows "build_indices extract (fws1 @ [fw\<lparr>files := fs1 @ [bad] @ fs2\<rparr>] @ fws2) =
         build_indices extract (fws1 @ [fw\<lparr>files := fs1 @ fs2\<rparr>] @ fws2)"
proof -
  have "index_framework extract (fw\<lparr>files := fs1 @ [bad] @ fs2\<rparr>) =
        index_framework extract (fw\<lparr>files := fs1 @ fs2\<rparr>)"
    using assms by (rule index_framework_skip)
  then show ?thesis
    by (simp add: build_indices_def)
qed

lemma good_file_extract:
  "extract_with_report ascii_only good_file =
     ([\<lparr>name = ''contract-valid?'', docstring = [],
        cross_references = [''pacta-sunt-servanda'', ''good-faith''],
        is_principle = False, file_name = ''contract.scm''\<rparr>], [])"
  by code_simp

lemma mixed_file_extract:
  "extract_with_report ascii_only mixed_file = ([], [UnicodeDecodeError])"
  by code_simp

lemma mixed_file_decode: "decode_utf8 (file_bytes mixed_file) = Inl UnicodeDecodeError"
  by code_simp

lemma good_file_decode:
  "decode_utf8 (file_bytes good_file) = Inr (projr (decode_utf8 (file_bytes good_file)))"
  by code_simp

text \<open>
  Claim C5 says that a failure at one malformed definition leaves the other definitions
  of the document extracted. The only handler of \<open>_extract_functions_from_file\<close>
  encloses the whole function and returns the empty list. The document \<open>mixed_file\<close>
  is the well-formed definition of \<open>good_file\<close> followed by a definition that contains
  the byte \<open>0xFF\<close>: reading it raises \<open>UnicodeDecodeError\<close>, and the extractor
  returns no record at all, the well-formed definition included.
\<close>

theorem extraction_record_isolation_counterexample:
  "file_bytes mixed_file = file_bytes good_file @ bad_text
   \<and> extract_functions_from_file ascii_only good_file =
       [\<lparr>name = ''contract-valid?'', docstring = [],
          cross_references = [''pacta-sunt-servanda'', ''good-faith''],
          is_principle = False, file_name = ''contract.scm''\<rparr>]
   \<and> extract_functions_from_file ascii_only mixed_file = []"
proof -
  have "file_bytes mixed_file = file_bytes good_file @ bad_text"
    by (simp add: mixed_file_def good_file_def)
  then show ?thesis
    by (simp add: extract_functions_from_file_def good_file_extract mixed_file_extract)
qed

text \<open>
  C5 as amended: extraction isolates failures at document granularity. When a document
  cannot be decoded, the failure is reported, the extractor returns zero records for the
  whole document, and the build is the one of the corpus without that document: the
  other documents are indexed as before. When a document is decoded, nothing is reported
  and every definition the pattern finds yields one record, in file order; the
  processing of a single definition cannot fail.
\<close>

theorem extraction_fails_per_document:
  "(decode_utf8 (file_bytes bad) = Inl e \<longrightarrow>
      extract_with_report ut bad = ([], [e])
      \<and> build_indices (extract_functions_from_file ut)
            (fws1 @ [fw\<lparr>files := fs1 @ [bad] @ fs2\<rparr>] @ fws2)
          = build_indices (extract_functions_from_file ut)
              (fws1 @ [fw\<lparr>files := fs1 @ fs2\<rparr>] @ fws2))
   \<and> (decode_utf8 (file_bytes f) = Inr decoded \<longrightarrow>
      snd (extract_with_report ut f) = []
      \<and> map name (extract_functions_from_file ut f) =
          map fst (find_defines ut (universal_newlines decoded)))"
proof (intro conjI impI)
  assume bad: "decode_utf8 (file_bytes bad) = Inl e"
  then show "extract_with_report ut bad = ([], [e])"
    by (simp add: extract_with_report_def)
  then have "extract_functions_from_file ut bad = []"
    by (simp add: extract_functions_from_file_def)
  then show "build_indices (extract_functions_from_file ut)
            (fws1 @ [fw\<lparr>files := fs1 @ [bad] @ fs2\<rparr>] @ fws2)
          = build_indices (extract_functions_from_file ut)
              (fws1 @ [fw\<lparr>files := fs1 @ fs2\<rparr>] @ fws2)"
    by (rule build_indices_skip)
next
  assume ok: "decode_utf8 (file_bytes f) = Inr decoded"
  then show "snd (extract_with_report ut f) = []"
    by (simp add: extract_with_report_def)
  show "map name (extract_functions_from_file ut f) =
          map fst (find_defines ut (universal_newlines decoded))"
    using ok
    by (simp add: extract_functions_from_file_def extract_with_report_def make_func_def comp_def)
qed

theorem extraction_fails_per_document_witness:
  "decode_utf8 (file_bytes mixed_file) = Inl UnicodeDecodeError
   \<and> extract_with_report ascii_only mixed_file = ([], [UnicodeDecodeError])
   \<and> build_indices (extract_functions_from_file ascii_only) [civ_files [good_file, mixed_file]]
       = build_indices (extract_functions_from_file ascii_only) [civ_files [good_file]]
   \<and> snd (extract_with_report ascii_only good_file) = []
   \<and> map name (extract_functions_from_file ascii_only good_file) = [''contract-valid?'']"
proof -
  note th = extraction_fails_per_document [where bad = mixed_file and e = UnicodeDecodeError
      and ut = ascii_only and ?fws1.0 = "[]" and fw = "civ_files []" and ?fs1.0 = "[good_file]"
      and ?fs2.0 = "[]" and ?fws2.0 = "[]" and f = good_file
      and decoded = "projr (decode_utf8 (file_bytes good_file))"]
  have n: "map name (extract_functions_from_file ascii_only good_file) = [''contract-valid?'']"
    by (simp add: extract_functions_from_file_def good_file_extract)
  show ?thesis
    using th mixed_file_decode good_file_decode n
    by (simp add: civ_files_def)
qed

end
